theory Spec2Isabelle
  imports Complex_Main
begin

section \<open>Data model\<close>

text \<open>
  The game is a React program: \<open>src/src/App.jsx\<close> (head aim, raised hand, fire cooldown)
  and an older hand-tracking variant of the same file, \<open>src/unnamed/part_000\<close>.
  JavaScript numbers are modelled as \<open>real\<close> (integer-valued ones as \<open>int\<close>, identifiers
  as \<open>nat\<close>); rounding of floating point arithmetic is outside the model.
\<close>

type_synonym vec = "real \<times> real \<times> real"

datatype spear_state = Idle | Gripped | Throwing | Thrown

text \<open>
  One entry of \<open>ANIMAL_TYPES\<close>. The fields \<open>health\<close> and \<open>score\<close> of the source are
  \<open>typeHealth\<close> and \<open>typeScore\<close> here; \<open>size\<close> and \<open>color\<close> are used for drawing only.
\<close>

record animal_type =
  name :: string
  baseSpeed :: real
  speedIncrease :: real
  typeHealth :: int
  damage :: int
  typeScore :: int
  spawnWeight :: real

definition ELEPHANT :: animal_type where
  "ELEPHANT = \<lparr>name = ''elephant'', baseSpeed = 0.4, speedIncrease = 0.6, typeHealth = 3,
     damage = 50, typeScore = 100, spawnWeight = 0.5\<rparr>"

definition CHEETAH :: animal_type where
  "CHEETAH = \<lparr>name = ''cheetah'', baseSpeed = 1.0, speedIncrease = 0.5, typeHealth = 2,
     damage = 25, typeScore = 75, spawnWeight = 0.125\<rparr>"

definition ANTELOPE :: animal_type where
  "ANTELOPE = \<lparr>name = ''antelope'', baseSpeed = 0.6, speedIncrease = 0, typeHealth = 1,
     damage = 10, typeScore = 50, spawnWeight = 0.25\<rparr>"

text \<open>\<open>Object.values(ANIMAL_TYPES)\<close>: the entries in insertion order.\<close>

definition ANIMAL_TYPES :: "animal_type list" where
  "ANIMAL_TYPES = [ELEPHANT, CHEETAH, ANTELOPE]"


section \<open>Spawn scheduler: weighted choice of the animal type\<close>

text \<open>
  \<^verbatim>\<open>
  const totalWeight = animalTypes.reduce((sum, type) => sum + type.spawnWeight, 0)
  let randomWeight = Math.random() * totalWeight
  let selectedType = animalTypes[0]
  for (const type of animalTypes) {
    randomWeight -= type.spawnWeight
    if (randomWeight <= 0) { selectedType = type; break }
  }
  \<close>
  The draw \<open>Math.random()\<close> is an input of the model. \<open>walk\<close> is the loop, its third
  argument the value \<open>selectedType\<close> holds when the loop ends without a \<open>break\<close>.
\<close>

definition totalWeight :: "animal_type list \<Rightarrow> real" where
  "totalWeight animalTypes = foldl (\<lambda>sum type. sum + spawnWeight type) 0 animalTypes"

fun walk :: "real \<Rightarrow> animal_type list \<Rightarrow> animal_type \<Rightarrow> animal_type" where
  "walk randomWeight [] selectedType = selectedType"
| "walk randomWeight (type # rest) selectedType =
     (if randomWeight - spawnWeight type \<le> 0 then type
      else walk (randomWeight - spawnWeight type) rest selectedType)"

text \<open>\<open>animalTypes[0]\<close> of an empty array is \<open>undefined\<close>: \<open>None\<close>.\<close>

fun selectType :: "real \<Rightarrow> animal_type list \<Rightarrow> animal_type option" where
  "selectType randomWeight [] = None"
| "selectType randomWeight (t0 # rest) = Some (walk randomWeight (t0 # rest) t0)"


section \<open>Entities and events\<close>

text \<open>
  \<open>animalData\<close> is the object \<open>spawnNewAnimal\<close> puts into the \<open>animals\<close> array
  (\<open>id\<close>, \<open>type\<close>, \<open>position\<close>, \<open>timestamp\<close>). \<open>spearData\<close> is the object in
  \<open>thrownSpears\<close>: it is shared by reference, the \<open>ThrownSpear\<close> component copies its own
  state into it at every render and an \<open>Animal\<close> writes \<open>isActive\<close> into it on a hit.
\<close>

record animalData =
  animalId :: nat
  animalType :: animal_type
  spawnPosition :: vec
  spawnTime :: int

record spearData =
  dataId :: nat
  dataPosition :: vec
  dataVelocity :: vec
  dataTimestamp :: int
  dataIsActive :: bool
  dataHasHitAnimal :: bool

text \<open>The \<open>useState\<close> cells of one \<open>Animal\<close> and of one \<open>ThrownSpear\<close>.\<close>

record animal_comp =
  animalPos :: vec
  health :: int
  isAlive :: bool
  stuckSpears :: "nat list"
  isDying :: bool

record spear_comp =
  position :: vec
  velocity :: vec
  isActive :: bool
  hasTriggeredMiss :: bool
  hasHitAnimal :: bool

text \<open>
  The two files differ in what the \<open>Animal\<close> passes to its callbacks: \<open>App.jsx\<close> calls
  \<open>onReachPlayer(damage, animalData.id)\<close> and \<open>onHit(score, spear.id, animalData.id)\<close> and
  has the prop \<open>onDeathAnimationComplete\<close>; \<open>part_000\<close> calls \<open>onReachPlayer(damage)\<close> and
  \<open>onHit(score, spear.id)\<close> and has no such prop. \<open>variant\<close> names the file.
\<close>

datatype variant = PoseApp | HandsApp

fun idArg :: "variant \<Rightarrow> nat \<Rightarrow> nat option" where
  "idArg PoseApp i = Some i"
| "idArg HandsApp i = None"

text \<open>
  What a frame callback calls at once: the props \<open>onReachPlayer\<close>, \<open>onHitMessage\<close>, \<open>onHit\<close>
  and \<open>onMiss\<close>, and the state setter \<open>spear.setHasHitAnimal(true)\<close> of another component.
\<close>

datatype event =
    ReachPlayer int "nat option"
  | HitMessage string
  | Hit int nat "nat option"
  | Miss nat
  | SetHasHitAnimal nat

text \<open>
  What \<open>setTimeout\<close> defers. A callback closes over the render in which it was created;
  the only value of that render a deferred callback reads is \<open>isPaused\<close>, through
  \<open>spawnNewAnimal\<close>, so the captured value is kept with the callback.
\<close>

datatype callback =
    CallOnHit int nat "nat option"
  | DeathAnimationDone variant bool nat
  | CallSpawn bool
  | InitialSpawn
  | ClearFlashMessage
  | ClearHitMessage
  | RemoveSpear nat
  | BackToGripped

type_synonym timer = "nat \<times> callback"

section \<open>Animal motor and collision resolver: the frame callback of \<open>Animal\<close>\<close>

definition currentSpeed :: "animalData \<Rightarrow> animal_comp \<Rightarrow> real" where
  "currentSpeed ad st =
     baseSpeed (animalType ad)
       + of_int (typeHealth (animalType ad) - health st) * speedIncrease (animalType ad)"

definition movedPosition :: "animalData \<Rightarrow> animal_comp \<Rightarrow> real \<Rightarrow> vec" where
  "movedPosition ad st delta =
     (case animalPos st of (x, y, z) \<Rightarrow> (x, y, z + currentSpeed ad st * delta))"

definition distance :: "vec \<Rightarrow> vec \<Rightarrow> real" where
  "distance a b =
     (case a of (ax, ay, az) \<Rightarrow> case b of (bx, by, bz) \<Rightarrow>
        sqrt ((ax - bx)\<^sup>2 + (ay - by)\<^sup>2 + (az - bz)\<^sup>2))"

definition deathAnimationDuration :: "animal_type \<Rightarrow> nat" where
  "deathAnimationDuration ty =
     (if name ty = ''elephant'' then 3000 else if name ty = ''cheetah'' then 4000 else 800)"

record frame_out =
  outComp :: animal_comp
  outSpears :: "spearData list"
  outEvents :: "event list"
  outTimers :: "timer list"

text \<open>
  The body of \<open>thrownSpears.forEach\<close> for one spear. \<open>cl\<close> holds the values the closure
  reads (\<open>health\<close>, \<open>stuckSpears\<close> of the last render); \<open>setHealth(newHealth)\<close> stores a
  value computed from them, \<open>setStuckSpears(prev => [...prev, spear.id])\<close> is a functional
  update and works on what the earlier iterations left. \<open>pick\<close> stands for the random
  choice of the message. \<open>paused\<close> is the \<open>isPaused\<close> of the render whose
  \<open>onDeathAnimationComplete\<close> the death timer captures. The fields \<open>isActive\<close>,
  \<open>position\<close> and \<open>setHasHitAnimal\<close> of a spear object are set by the first render of its
  component, which comes before any frame. Logging and drawing are left out.
\<close>

definition collide ::
  "variant \<Rightarrow> (nat \<Rightarrow> string) \<Rightarrow> bool \<Rightarrow> animalData \<Rightarrow> animal_comp \<Rightarrow> vec
     \<Rightarrow> frame_out \<Rightarrow> spearData \<Rightarrow> frame_out" where
  "collide v pick paused ad cl newPosition acc spear =
     (if \<not> dataIsActive spear \<or> dataId spear \<in> set (stuckSpears cl)
      then acc\<lparr>outSpears := outSpears acc @ [spear]\<rparr>
      else if distance newPosition (dataPosition spear) < 3.0
      then
        (let newHealth = health cl - 1;
             hit = acc\<lparr>
               outComp := (outComp acc)\<lparr>health := newHealth,
                  stuckSpears := stuckSpears (outComp acc) @ [dataId spear]\<rparr>,
               outSpears := outSpears acc @ [spear\<lparr>dataIsActive := False\<rparr>],
               outEvents := outEvents acc
                  @ [SetHasHitAnimal (dataId spear), HitMessage (pick (dataId spear))],
               outTimers := outTimers acc
                  @ [(500, CallOnHit (typeScore (animalType ad)) (dataId spear)
                             (idArg v (animalId ad)))]\<rparr>
         in if newHealth \<le> 0
            then hit\<lparr>
               outComp := (outComp hit)\<lparr>isAlive := False, isDying := True\<rparr>,
               outEvents := outEvents hit
                  @ [Hit (typeScore (animalType ad)) (dataId spear) (idArg v (animalId ad))],
               outTimers := outTimers hit
                  @ [(deathAnimationDuration (animalType ad),
                      DeathAnimationDone v paused (animalId ad))]\<rparr>
            else hit)
      else acc\<lparr>outSpears := outSpears acc @ [spear]\<rparr>)"

text \<open>
  The callback given to \<open>useFrame\<close>. \<open>mesh\<close> says whether \<open>meshRef.current\<close> is set (the
  component rendered its group), \<open>paused\<close> is the prop \<open>isPaused\<close>, \<open>cl\<close> the state of the
  last render. The result holds the state after the setters have taken effect, the spear
  objects as the loop left them, and the calls and timers in the order they were made.
\<close>

definition animalFrame ::
  "variant \<Rightarrow> (nat \<Rightarrow> string) \<Rightarrow> bool \<Rightarrow> bool \<Rightarrow> real \<Rightarrow> animalData \<Rightarrow> animal_comp
     \<Rightarrow> spearData list \<Rightarrow> frame_out" where
  "animalFrame v pick mesh paused delta ad cl thrown =
     (if \<not> mesh \<or> \<not> isAlive cl \<or> paused
      then \<lparr>outComp = cl, outSpears = thrown, outEvents = [], outTimers = []\<rparr>
      else
        (let newPosition = movedPosition ad cl delta
         in if snd (snd newPosition) \<ge> 8
            then \<lparr>outComp = cl\<lparr>isAlive := False\<rparr>, outSpears = thrown,
                   outEvents = [ReachPlayer (damage (animalType ad)) (idArg v (animalId ad))],
                   outTimers = []\<rparr>
            else
              (let acc = foldl (collide v pick paused ad cl newPosition)
                           \<lparr>outComp = cl, outSpears = [], outEvents = [], outTimers = []\<rparr>
                           thrown
               in acc\<lparr>outComp := (outComp acc)\<lparr>animalPos := newPosition\<rparr>\<rparr>)))"

text \<open>\<open>if (!isAlive && !isDying) return null\<close>: whether the component still draws its group.\<close>

definition animalMounted :: "animal_comp \<Rightarrow> bool" where
  "animalMounted st = (isAlive st \<or> isDying st)"

text \<open>The state a new \<open>Animal\<close> starts from.\<close>

definition newAnimalComp :: "animalData \<Rightarrow> animal_comp" where
  "newAnimalComp ad = \<lparr>animalPos = spawnPosition ad, health = typeHealth (animalType ad),
     isAlive = True, stuckSpears = [], isDying = False\<rparr>"

section \<open>Projectile physics: the frame callback of \<open>ThrownSpear\<close>\<close>

text \<open>
  \<^verbatim>\<open>
  if (!hasTriggeredMiss && !hasHitAnimal && onMiss) {
    setHasTriggeredMiss(true)
    onMiss(spearData.id)
  }
  \<close>
  The block stands in each of the three terminal branches. It reads \<open>hasTriggeredMiss\<close> and
  \<open>hasHitAnimal\<close> of the closure \<open>cl\<close>; \<open>Scene\<close> always passes \<open>onMiss\<close>.
\<close>

definition triggerMiss :: "nat \<Rightarrow> spear_comp \<Rightarrow> spear_comp \<Rightarrow> spear_comp \<times> event list" where
  "triggerMiss i cl st =
     (if \<not> hasTriggeredMiss cl \<and> \<not> hasHitAnimal cl
      then (st\<lparr>hasTriggeredMiss := True\<rparr>, [Miss i])
      else (st, []))"

definition newVelocity :: "spear_comp \<Rightarrow> real \<Rightarrow> vec" where
  "newVelocity cl delta =
     (case velocity cl of (vx, vy, vz) \<Rightarrow> (vx, vy - 9.8 * delta, vz))"

definition newPosition :: "spear_comp \<Rightarrow> real \<Rightarrow> vec" where
  "newPosition cl delta =
     (case position cl of (px, py, pz) \<Rightarrow>
        case newVelocity cl delta of (vx, vy, vz) \<Rightarrow>
          (px + vx * delta, py + vy * delta, pz + vz * delta))"

text \<open>The conditions of the three branches, on the integrated position.\<close>

definition hitsBackboard :: "vec \<Rightarrow> bool" where
  "hitsBackboard p =
     (case p of (x, y, z) \<Rightarrow> z \<le> - 29.9 \<and> x \<ge> - 5 \<and> x \<le> 5 \<and> y \<ge> - 5 \<and> y \<le> 3)"

definition hitsGround :: "vec \<Rightarrow> bool" where
  "hitsGround p = (case p of (x, y, z) \<Rightarrow> y \<le> - 3.25)"

definition outOfBounds :: "vec \<Rightarrow> bool" where
  "outOfBounds p = (case p of (x, y, z) \<Rightarrow> z < - 35 \<or> x < - 15 \<or> x > 15)"

text \<open>
  The callback given to \<open>useFrame\<close>; \<open>i\<close> is \<open>spearData.id\<close>. The last two setters,
  \<open>setVelocity\<close> and \<open>setPosition\<close>, run in every branch.
\<close>

definition spearFrame ::
  "bool \<Rightarrow> bool \<Rightarrow> real \<Rightarrow> nat \<Rightarrow> spear_comp \<Rightarrow> spear_comp \<times> event list" where
  "spearFrame mesh paused delta i cl =
     (if \<not> mesh \<or> \<not> isActive cl \<or> paused then (cl, [])
      else
        (let v = newVelocity cl delta; p = newPosition cl delta
         in case p of (x, y, z) \<Rightarrow>
              if hitsBackboard p
              then triggerMiss i cl
                     (cl\<lparr>position := (x, y, - 29.9), velocity := v, isActive := False\<rparr>)
              else if hitsGround p
              then triggerMiss i cl
                     (cl\<lparr>position := (x, - 3.25, z), velocity := v, isActive := False\<rparr>)
              else if outOfBounds p
              then triggerMiss i cl (cl\<lparr>position := p, velocity := v\<rparr>)
              else (cl\<lparr>position := p, velocity := v\<rparr>, [])))"

text \<open>
  The body of the component, run at every render: it copies the state into the shared
  object, and it returns \<open>null\<close> (no group, so \<open>meshRef.current\<close> is unset) for a position out
  of bounds.
\<close>

definition renderSpear :: "spear_comp \<Rightarrow> spearData \<Rightarrow> spearData" where
  "renderSpear st sd =
     sd\<lparr>dataPosition := position st, dataIsActive := isActive st,
        dataHasHitAnimal := hasHitAnimal st\<rparr>"

definition spearMounted :: "spear_comp \<Rightarrow> bool" where
  "spearMounted st = (\<not> outOfBounds (position st))"

definition newSpearComp :: "spearData \<Rightarrow> spear_comp" where
  "newSpearComp sd = \<lparr>position = dataPosition sd, velocity = dataVelocity sd, isActive = True,
     hasTriggeredMiss = False, hasHitAnimal = False\<rparr>"

text \<open>
  The life of one spear, tick by tick. Between two ticks React renders: the setters of the
  tick take effect, among them \<open>setHasHitAnimal(true)\<close> when an \<open>Animal\<close> called it during
  the tick (\<open>tickHit\<close>). \<open>spearLife\<close> collects what the spear's own callback emits.
\<close>

record tick =
  tickDelta :: real
  tickPaused :: bool
  tickHit :: bool

fun spearLife :: "nat \<Rightarrow> tick list \<Rightarrow> spear_comp \<Rightarrow> event list" where
  "spearLife i [] st = []"
| "spearLife i (t # ts) st =
     (case spearFrame (spearMounted st) (tickPaused t) (tickDelta t) i st of
        (st', evs) \<Rightarrow>
          evs @ spearLife i ts (st'\<lparr>hasHitAnimal := hasHitAnimal st' \<or> tickHit t\<rparr>))"

section \<open>One tick of an animal and a spear\<close>

text \<open>
  A state setter called inside a frame callback does not change what the callbacks of that
  tick read: each callback is a closure over the \<open>const\<close> values of its component's last
  render, and React applies the setters of a tick together, at the next render. The
  callbacks of one tick run in the order in which the components subscribed (mounted), so
  either component may come first. The \<open>Animal\<close> reads the shared object as the spear's
  last render left it; the spear's callback reads its own state, not the shared object.
\<close>

definition tickAnimalThenSpear ::
  "variant \<Rightarrow> (nat \<Rightarrow> string) \<Rightarrow> real \<Rightarrow> animalData \<Rightarrow> animal_comp \<Rightarrow> spearData
     \<Rightarrow> spear_comp \<Rightarrow> event list" where
  "tickAnimalThenSpear v pick delta ad ac sd sc =
     (let out = animalFrame v pick (animalMounted ac) False delta ad ac [renderSpear sc sd]
      in outEvents out @ snd (spearFrame (spearMounted sc) False delta (dataId sd) sc))"

definition tickSpearThenAnimal ::
  "variant \<Rightarrow> (nat \<Rightarrow> string) \<Rightarrow> real \<Rightarrow> animalData \<Rightarrow> animal_comp \<Rightarrow> spearData
     \<Rightarrow> spear_comp \<Rightarrow> event list" where
  "tickSpearThenAnimal v pick delta ad ac sd sc =
     (let out = animalFrame v pick (animalMounted ac) False delta ad ac [renderSpear sc sd]
      in snd (spearFrame (spearMounted sc) False delta (dataId sd) sc) @ outEvents out)"

section \<open>Session coordinator: the state of \<open>App\<close> and its handlers\<close>

text \<open>
  The \<open>useState\<close> and \<open>useRef\<close> cells of \<open>App\<close> in \<open>App.jsx\<close>, and the timers it has
  pending (delay in milliseconds and callback).
\<close>

record app =
  spearState :: spear_state
  showCamera :: bool
  headPosition :: "vec option"
  thrownSpears :: "spearData list"
  animals :: "animalData list"
  score :: int
  hitMessage :: string
  flashMessage :: string
  isPaused :: bool
  cameraRotation :: real
  lastFireTime :: int
  spearIdCounter :: nat
  animalIdCounter :: nat
  timers :: "timer list"

definition FIRE_COOLDOWN :: int where
  "FIRE_COOLDOWN = 1000"

text \<open>
  The first render, after its effects have run: the effect on \<open>[isPaused]\<close> has scheduled
  the first spawn.
\<close>

definition initialApp :: app where
  "initialApp = \<lparr>spearState = Idle, showCamera = True, headPosition = None, thrownSpears = [],
     animals = [], score = 0, hitMessage = [], flashMessage = [], isPaused = False,
     cameraRotation = 0, lastFireTime = 0, spearIdCounter = 0, animalIdCounter = 0,
     timers = [(1000, InitialSpawn)]\<rparr>"

text \<open>What a spawn draws: \<open>Math.random()\<close> twice and \<open>Date.now()\<close>.\<close>

record spawn_input =
  randomType :: real
  randomX :: real
  spawnNow :: int

text \<open>
  \<open>spawnNewAnimal(deadAnimalId = null)\<close>. \<open>pausedC\<close> is the \<open>isPaused\<close> of the render that
  created this closure: the function is a \<open>const\<close> of the render, and the call in its own
  timer refers to that same \<open>const\<close>. \<open>if (deadAnimalId)\<close> is false for \<open>null\<close> and for the
  id \<open>0\<close>. Only \<open>setAnimals\<close>, \<open>animalIdCounter.current\<close> and \<open>setTimeout\<close> act on the
  current state.
\<close>

definition spawnNewAnimal :: "bool \<Rightarrow> nat option \<Rightarrow> spawn_input \<Rightarrow> app \<Rightarrow> app" where
  "spawnNewAnimal pausedC deadAnimalId inp s =
     (case (case deadAnimalId of None \<Rightarrow> None | Some d \<Rightarrow> if d = 0 then None else Some d) of
        Some d \<Rightarrow>
          s\<lparr>animals := filter (\<lambda>animal. animalId animal \<noteq> d) (animals s),
            timers := timers s @ [(100, CallSpawn pausedC)]\<rparr>
      | None \<Rightarrow>
          if pausedC then s
          else
            (case selectType (randomType inp * totalWeight ANIMAL_TYPES) ANIMAL_TYPES of
               None \<Rightarrow> s
             | Some selectedType \<Rightarrow>
                 s\<lparr>animalIdCounter := animalIdCounter s + 1,
                   animals := animals s
                     @ [\<lparr>animalId = animalIdCounter s, animalType = selectedType,
                          spawnPosition = (randomX inp - 0.5, - 4, - 25),
                          spawnTime = spawnNow inp\<rparr>]\<rparr>))"

text \<open>
  \<open>handleAnimalReachPlayer(damage, animalId)\<close>. \<open>animalsC\<close> and \<open>pausedC\<close> are \<open>animals\<close> and
  \<open>isPaused\<close> of the render that created the closure.
\<close>

definition handleAnimalReachPlayer ::
  "animalData list \<Rightarrow> bool \<Rightarrow> int \<Rightarrow> nat \<Rightarrow> app \<Rightarrow> app" where
  "handleAnimalReachPlayer animalsC pausedC dmg aid s =
     (let s1 = (case find (\<lambda>a. animalId a = aid) animalsC of
                  Some animal \<Rightarrow>
                    s\<lparr>flashMessage :=
                         (if name (animalType animal) = ''cheetah'' then ''EATEN!''
                          else ''TRAMPLED!''),
                      timers := timers s @ [(2000, ClearFlashMessage)]\<rparr>
                | None \<Rightarrow> s)
      in s1\<lparr>animals := filter (\<lambda>animal. animalId animal \<noteq> aid) (animals s1),
            timers := timers s1 @ [(1000, CallSpawn pausedC)]\<rparr>)"

text \<open>\<open>handleAnimalHit(scorePoints, spearId, animalId)\<close>; \<open>if (spearId)\<close> is false for id \<open>0\<close>.\<close>

definition handleAnimalHit :: "int \<Rightarrow> nat \<Rightarrow> app \<Rightarrow> app" where
  "handleAnimalHit scorePoints sid s =
     (let s1 = s\<lparr>score := score s + scorePoints\<rparr>
      in if sid \<noteq> 0
         then s1\<lparr>thrownSpears := filter (\<lambda>spear. dataId spear \<noteq> sid) (thrownSpears s1)\<rparr>
         else s1)"

definition handleHitMessage :: "string \<Rightarrow> app \<Rightarrow> app" where
  "handleHitMessage message s =
     s\<lparr>hitMessage := message, timers := timers s @ [(1500, ClearHitMessage)]\<rparr>"

text \<open>\<open>handleSpearMiss(spearId)\<close>; \<open>randomMessage\<close> is the message it draws.\<close>

definition handleSpearMiss :: "nat \<Rightarrow> string \<Rightarrow> app \<Rightarrow> app" where
  "handleSpearMiss sid randomMessage s =
     (let s1 = handleHitMessage randomMessage s
      in s1\<lparr>timers := timers s1 @ [(1000, RemoveSpear sid)]\<rparr>)"

definition handleTogglePause :: "app \<Rightarrow> app" where
  "handleTogglePause s = s\<lparr>isPaused := \<not> isPaused s\<rparr>"

definition handleRestart :: "app \<Rightarrow> app" where
  "handleRestart s =
     s\<lparr>score := 0, animals := [], thrownSpears := [], isPaused := False, hitMessage := [],
       flashMessage := [], spearState := Idle, spearIdCounter := 0, animalIdCounter := 0\<rparr>"

definition handleCameraRotation :: "real \<Rightarrow> app \<Rightarrow> app" where
  "handleCameraRotation degrees s = s\<lparr>cameraRotation := degrees\<rparr>"

text \<open>
  The effect on \<open>[isPaused]\<close>, run after a render in which \<open>isPaused\<close> changed: its cleanup
  clears the timer of the previous run, and it schedules a spawn when the game is not paused.
\<close>

definition pauseEffect :: "app \<Rightarrow> app" where
  "pauseEffect s =
     (let s1 = s\<lparr>timers := filter (\<lambda>t. snd t \<noteq> InitialSpawn) (timers s)\<rparr>
      in if \<not> isPaused s1 then s1\<lparr>timers := timers s1 @ [(1000, InitialSpawn)]\<rparr> else s1)"

section \<open>Fire control: the pose effect of \<open>App\<close>\<close>

record landmark =
  lx :: real
  ly :: real
  lz :: real

definition getHeadPosition :: "landmark list option \<Rightarrow> vec option" where
  "getHeadPosition landmarks =
     (case landmarks of
        None \<Rightarrow> None
      | Some ls \<Rightarrow> if length ls < 33 then None else Some (lx (ls ! 0), ly (ls ! 0), lz (ls ! 0)))"

definition detectHandRaised :: "landmark list option \<Rightarrow> bool" where
  "detectHandRaised landmarks =
     (case landmarks of
        None \<Rightarrow> False
      | Some ls \<Rightarrow>
          if length ls < 33 then False
          else
            (let leftWrist = ls ! 15; rightWrist = ls ! 16; leftShoulder = ls ! 11;
                 rightShoulder = ls ! 12; nose = ls ! 0;
                 leftHandRaised = (ly leftWrist < ly leftShoulder - 0.05);
                 rightHandRaised = (ly rightWrist < ly rightShoulder - 0.05);
                 leftHandAboveHead = (ly leftWrist < ly nose - 0.1);
                 rightHandAboveHead = (ly rightWrist < ly nose - 0.1)
             in leftHandRaised \<or> rightHandRaised \<or> leftHandAboveHead \<or> rightHandAboveHead))"

definition rotateCoordinates :: "real \<Rightarrow> real \<Rightarrow> real \<Rightarrow> real \<times> real" where
  "rotateCoordinates x y rotation =
     (let rad = (rotation * pi) / 180
      in (x * cos rad - y * sin rad, x * sin rad + y * cos rad))"

text \<open>The aiming position computed from the nose landmark.\<close>

definition aimPosition :: "real \<Rightarrow> vec \<Rightarrow> vec" where
  "aimPosition rotation headPos =
     (case headPos of (hx, hy, hz) \<Rightarrow>
        case rotateCoordinates ((0.5 - hx) * 25) ((1 - hy) * 2.5 - 4) rotation of
          (rotatedX, rotatedY) \<Rightarrow> (rotatedX, rotatedY, 5 + hz * (- 3)))"

text \<open>The velocity of a throw; \<open>powerRatio\<close> is always \<open>1.0\<close>.\<close>

definition throwVelocity :: vec where
  "throwVelocity =
     (let powerRatio = 1.0; baseVelocity = 1.5 + powerRatio * 5.0
      in (0, 0.8 + powerRatio * 1.5, - baseVelocity * (1 + powerRatio * 5)))"

record pose_input =
  poseLandmarks :: "landmark list option"
  isReady :: bool
  now :: int

text \<open>
  The effect on \<open>[poseLandmarks, isReady, spearState, headPosition, isPaused]\<close>. It runs
  after a render, so the values it reads (\<open>spearState\<close>, \<open>headPosition\<close>, \<open>lastFireTime\<close>,
  \<open>cameraRotation\<close>, \<open>isPaused\<close>) are those of the state \<open>s\<close>; its setters build the next
  state. A new spear is shown with the values its component gives it at its first render
  (\<open>isActive\<close> true, \<open>hasHitAnimal\<close> false).
\<close>

definition poseEffect :: "pose_input \<Rightarrow> app \<Rightarrow> app" where
  "poseEffect inp s =
     (case poseLandmarks inp of
        None \<Rightarrow> s
      | Some ls \<Rightarrow>
          if \<not> isReady inp \<or> isPaused s then s
          else
            (let headPos = getHeadPosition (Some ls);
                 isHandRaised = detectHandRaised (Some ls);
                 s1 = (case headPos of
                         Some h \<Rightarrow>
                           (let s0 = s\<lparr>headPosition := Some (aimPosition (cameraRotation s) h)\<rparr>
                            in if spearState s = Idle then s0\<lparr>spearState := Gripped\<rparr> else s0)
                       | None \<Rightarrow>
                           (let s0 = s\<lparr>headPosition := Some (0, - 2, 5)\<rparr>
                            in if spearState s = Gripped then s0\<lparr>spearState := Idle\<rparr> else s0))
             in case headPosition s of
                  None \<Rightarrow> s1
                | Some aim \<Rightarrow>
                    if isHandRaised \<and> spearState s = Gripped
                    then
                      (let currentTime = now inp
                       in if currentTime - lastFireTime s \<ge> FIRE_COOLDOWN
                          then s1\<lparr>spearIdCounter := spearIdCounter s1 + 1,
                                 thrownSpears := thrownSpears s1
                                   @ [\<lparr>dataId = spearIdCounter s1, dataPosition = aim,
                                        dataVelocity = throwVelocity,
                                        dataTimestamp = currentTime, dataIsActive = True,
                                        dataHasHitAnimal = False\<rparr>],
                                 spearState := Throwing,
                                 lastFireTime := currentTime,
                                 timers := timers s1 @ [(500, BackToGripped)]\<rparr>
                          else s1)
                    else s1))"

section \<open>The session as a transition system\<close>

text \<open>
  Everything that changes the state of \<open>App\<close>: the pose effect, the callbacks the
  components call (with the values of the closure they were created in), the controls of
  the overlay, and a pending timer that fires. A timer of an \<open>Animal\<close> (\<open>CallOnHit\<close>,
  \<open>DeathAnimationDone\<close>) is not in \<open>timers\<close>; it arrives as \<open>ComponentTimer\<close>.
\<close>

datatype action =
    PoseUpdate pose_input
  | AnimalReachPlayer "animalData list" bool int nat
  | AnimalHit int nat
  | ShowHitMessage string
  | SpearMiss nat string
  | TogglePause
  | Restart
  | CameraRotation real
  | ToggleCamera
  | ComponentTimer callback spawn_input
  | FireTimer nat spawn_input

fun runCallback :: "callback \<Rightarrow> spawn_input \<Rightarrow> app \<Rightarrow> app" where
  "runCallback (CallOnHit scorePoints sid aid) inp s = handleAnimalHit scorePoints sid s"
| "runCallback (DeathAnimationDone PoseApp pausedC aid) inp s =
     spawnNewAnimal pausedC (Some aid) inp s"
| "runCallback (DeathAnimationDone HandsApp pausedC aid) inp s = s"
| "runCallback (CallSpawn pausedC) inp s = spawnNewAnimal pausedC None inp s"
| "runCallback InitialSpawn inp s = spawnNewAnimal False None inp s"
| "runCallback ClearFlashMessage inp s = s\<lparr>flashMessage := []\<rparr>"
| "runCallback ClearHitMessage inp s = s\<lparr>hitMessage := []\<rparr>"
| "runCallback (RemoveSpear sid) inp s =
     s\<lparr>thrownSpears := filter (\<lambda>spear. dataId spear \<noteq> sid) (thrownSpears s)\<rparr>"
| "runCallback BackToGripped inp s = s\<lparr>spearState := Gripped\<rparr>"

text \<open>The \<open>k\<close>-th pending timer fires: it leaves the list and its callback runs.\<close>

definition fireTimer :: "nat \<Rightarrow> spawn_input \<Rightarrow> app \<Rightarrow> app" where
  "fireTimer k inp s =
     (if k < length (timers s)
      then runCallback (snd (timers s ! k)) inp
             (s\<lparr>timers := take k (timers s) @ drop (Suc k) (timers s)\<rparr>)
      else s)"

fun step :: "action \<Rightarrow> app \<Rightarrow> app" where
  "step (PoseUpdate inp) s = poseEffect inp s"
| "step (AnimalReachPlayer animalsC pausedC dmg aid) s =
     handleAnimalReachPlayer animalsC pausedC dmg aid s"
| "step (AnimalHit scorePoints sid) s = handleAnimalHit scorePoints sid s"
| "step (ShowHitMessage message) s = handleHitMessage message s"
| "step (SpearMiss sid randomMessage) s = handleSpearMiss sid randomMessage s"
| "step TogglePause s = pauseEffect (handleTogglePause s)"
| "step Restart s = (if isPaused s then pauseEffect (handleRestart s) else handleRestart s)"
| "step (CameraRotation degrees) s = handleCameraRotation degrees s"
| "step ToggleCamera s = s\<lparr>showCamera := \<not> showCamera s\<rparr>"
| "step (ComponentTimer cb inp) s = runCallback cb inp s"
| "step (FireTimer k inp) s = fireTimer k inp s"

fun run :: "action list \<Rightarrow> app \<Rightarrow> app" where
  "run [] s = s"
| "run (a # as) s = run as (step a s)"

section \<open>What a run adds to the registry\<close>

text \<open>
  The animals and the spears a step puts into the two arrays, and their collection over a
  run; \<open>idsOK\<close> is the invariant of the two id counters.
\<close>

definition newAnimals :: "action \<Rightarrow> app \<Rightarrow> animalData list" where
  "newAnimals a s = filter (\<lambda>x. x \<notin> set (animals s)) (animals (step a s))"

definition newSpears :: "action \<Rightarrow> app \<Rightarrow> spearData list" where
  "newSpears a s = filter (\<lambda>x. x \<notin> set (thrownSpears s)) (thrownSpears (step a s))"

fun spawned :: "action list \<Rightarrow> app \<Rightarrow> animalData list" where
  "spawned [] s = []"
| "spawned (a # as) s = newAnimals a s @ spawned as (step a s)"

fun fired :: "action list \<Rightarrow> app \<Rightarrow> spearData list" where
  "fired [] s = []"
| "fired (a # as) s = newSpears a s @ fired as (step a s)"

definition idsOK :: "app \<Rightarrow> bool" where
  "idsOK s =
     (distinct (map animalId (animals s))
      \<and> list_all (\<lambda>a. animalId a < animalIdCounter s) (animals s)
      \<and> distinct (map dataId (thrownSpears s))
      \<and> list_all (\<lambda>p. dataId p < spearIdCounter s) (thrownSpears s))"

text \<open>
  The two shapes a step of the session gives an array and its counter: elements are
  removed and the counter stays, or one element is appended whose id is the counter's
  value and the counter grows by one. (\<open>Restart\<close> is the one step of neither shape.)
\<close>

definition animalsStep :: "app \<Rightarrow> app \<Rightarrow> bool" where
  "animalsStep s s' =
     ((\<exists>P. animals s' = filter P (animals s) \<and> animalIdCounter s' = animalIdCounter s)
      \<or> (\<exists>x. animals s' = animals s @ [x] \<and> animalId x = animalIdCounter s
             \<and> animalIdCounter s' = Suc (animalIdCounter s)))"

definition spearsStep :: "app \<Rightarrow> app \<Rightarrow> bool" where
  "spearsStep s s' =
     ((\<exists>P. thrownSpears s' = filter P (thrownSpears s) \<and> spearIdCounter s' = spearIdCounter s)
      \<or> (\<exists>x. thrownSpears s' = thrownSpears s @ [x] \<and> dataId x = spearIdCounter s
             \<and> spearIdCounter s' = Suc (spearIdCounter s)))"

text \<open>The pending timers that will call \<open>spawnNewAnimal()\<close> for a removed animal.\<close>

fun isCallSpawn :: "timer \<Rightarrow> bool" where
  "isCallSpawn (ms, CallSpawn pausedC) = True"
| "isCallSpawn (ms, cb) = False"

definition pendingSpawns :: "app \<Rightarrow> timer list" where
  "pendingSpawns s = filter isCallSpawn (timers s)"

text \<open>
  The calls of \<open>onHit\<close> one frame of an \<open>Animal\<close> causes, those it makes at once and those
  its 500 ms timers make, and their effect on \<open>App\<close>.
\<close>

fun hitOfEvent :: "event \<Rightarrow> (int \<times> nat) list" where
  "hitOfEvent (Hit scorePoints sid aid) = [(scorePoints, sid)]"
| "hitOfEvent e = []"

fun hitOfTimer :: "timer \<Rightarrow> (int \<times> nat) list" where
  "hitOfTimer (ms, CallOnHit scorePoints sid aid) = [(scorePoints, sid)]"
| "hitOfTimer (ms, cb) = []"

definition onHitCalls :: "frame_out \<Rightarrow> (int \<times> nat) list" where
  "onHitCalls out =
     concat (map hitOfEvent (outEvents out)) @ concat (map hitOfTimer (outTimers out))"

definition settleHits :: "frame_out \<Rightarrow> app \<Rightarrow> app" where
  "settleHits out s = foldl (\<lambda>s' (scorePoints, sid). handleAnimalHit scorePoints sid s') s (onHitCalls out)"

section \<open>Scenarios\<close>

text \<open>Concrete inputs, used where a result is shown at an instance.\<close>

definition hitText :: "nat \<Rightarrow> string" where
  "hitText i = ''HIT!''"

definition drawn :: spawn_input where
  "drawn = \<lparr>randomType = 0.5, randomX = 0.5, spawnNow = 9000\<rparr>"

text \<open>
  A spear thrown high (camera rotated by 90 degrees), one second into its flight: it has
  passed over the backboard and is about to cross \<open>z = -35\<close>.
\<close>

definition highSpear :: spear_comp where
  "highSpear = \<lparr>position = (2, 9.4, - 34), velocity = (0, - 7.5, - 39), isActive = True,
     hasTriggeredMiss = False, hasHitAnimal = False\<rparr>"


text \<open>
  A spear in front of the backboard and just above the floor: its next position is on the
  backboard and below the floor height.
\<close>

definition lowSpear :: spear_comp where
  "lowSpear = \<lparr>position = (0, - 3.2, - 29.5), velocity = (0, - 1, - 39), isActive = True,
     hasTriggeredMiss = False, hasHitAnimal = False\<rparr>"

text \<open>
  An antelope (one hit kills) walking at \<open>z = -10\<close>, and spear 3 coming down just in front
  of it: within the hit radius of the animal, and one tick above the ground.
\<close>

definition antelope7 :: animalData where
  "antelope7 = \<lparr>animalId = 7, animalType = ANTELOPE, spawnPosition = (0, - 4, - 25),
     spawnTime = 0\<rparr>"

definition walking :: animal_comp where
  "walking = \<lparr>animalPos = (0, - 4, - 10), health = 1, isAlive = True, stuckSpears = [],
     isDying = False\<rparr>"

definition flying3 :: spear_comp where
  "flying3 = \<lparr>position = (0, - 3.23, - 8), velocity = (0, - 0.97, - 39), isActive = True,
     hasTriggeredMiss = False, hasHitAnimal = False\<rparr>"

definition spear3 :: spearData where
  "spear3 = \<lparr>dataId = 3, dataPosition = (0, - 3.23, - 8), dataVelocity = (0, 2.3, - 39),
     dataTimestamp = 0, dataIsActive = True, dataHasHitAnimal = False\<rparr>"

text \<open>
  An elephant that has taken two hits (spears 1 and 2), and two active spears 5 and 6 that
  both are within the hit radius in the same tick.
\<close>

definition elephant9 :: animalData where
  "elephant9 = \<lparr>animalId = 9, animalType = ELEPHANT, spawnPosition = (0, - 4, - 25),
     spawnTime = 0\<rparr>"

definition wounded :: animal_comp where
  "wounded = \<lparr>animalPos = (0, - 4, - 10), health = 1, isAlive = True, stuckSpears = [1, 2],
     isDying = False\<rparr>"

definition spear5 :: spearData where
  "spear5 = \<lparr>dataId = 5, dataPosition = (1, - 3, - 8), dataVelocity = (0, 2.3, - 39),
     dataTimestamp = 0, dataIsActive = True, dataHasHitAnimal = False\<rparr>"

definition spear6 :: spearData where
  "spear6 = \<lparr>dataId = 6, dataPosition = (- 1, - 3, - 9), dataVelocity = (0, 2.3, - 39),
     dataTimestamp = 0, dataIsActive = True, dataHasHitAnimal = False\<rparr>"

text \<open>
  The session in which that elephant is the only animal, with both spears in the air, and
  the steps that follow the tick: the four timers the frame has set fire in the order of
  their delays, then the two pending calls of \<open>spawnNewAnimal()\<close>.
\<close>

definition hunting :: app where
  "hunting = \<lparr>spearState = Gripped, showCamera = True, headPosition = Some (0, - 2.75, 5),
     thrownSpears = [spear5, spear6], animals = [elephant9], score = 0, hitMessage = [],
     flashMessage = [], isPaused = False, cameraRotation = 0, lastFireTime = 6000,
     spearIdCounter = 7, animalIdCounter = 10, timers = []\<rparr>"

definition afterTheKill :: "action list" where
  "afterTheKill =
     map (\<lambda>t. ComponentTimer (snd t) drawn)
       (sort_key fst
          (outTimers (animalFrame PoseApp hitText True False 0.1 elephant9 wounded
                        [spear5, spear6])))
     @ [FireTimer 0 drawn, FireTimer 0 drawn]"

text \<open>An elephant one step from the player.\<close>

definition atTheDoor :: animal_comp where
  "atTheDoor = \<lparr>animalPos = (0, - 4, 7.9), health = 3, isAlive = True, stuckSpears = [],
     isDying = False\<rparr>"

text \<open>A pose with the head in the middle of the picture, without and with a raised hand.\<close>

definition standing :: "landmark list" where
  "standing = replicate 33 \<lparr>lx = 0.5, ly = 0.5, lz = 0\<rparr>"

definition handUp :: "landmark list" where
  "handUp = standing[15 := \<lparr>lx = 0.4, ly = 0.2, lz = 0\<rparr>]"

definition seenAt :: "int \<Rightarrow> pose_input" where
  "seenAt t = \<lparr>poseLandmarks = Some standing, isReady = True, now = t\<rparr>"

definition raisedAt :: "int \<Rightarrow> pose_input" where
  "raisedAt t = \<lparr>poseLandmarks = Some handUp, isReady = True, now = t\<rparr>"

section \<open>Weighted choice: results\<close>






section \<open>Projectile physics: results\<close>

lemma spearFrame_active:
  assumes "mesh" "isActive cl" "\<not> paused"
    and "velocity cl = (vx, vy, vz)" "position cl = (px, py, pz)"
  shows "spearFrame mesh paused delta i cl =
     (let x = px + vx * delta; y = py + (vy - 9.8 * delta) * delta; z = pz + vz * delta;
          v = (vx, vy - 9.8 * delta, vz)
      in if hitsBackboard (x, y, z)
              then triggerMiss i cl
                     (cl\<lparr>position := (x, y, - 29.9), velocity := v, isActive := False\<rparr>)
              else if hitsGround (x, y, z)
              then triggerMiss i cl
                     (cl\<lparr>position := (x, - 3.25, z), velocity := v, isActive := False\<rparr>)
              else if outOfBounds (x, y, z)
              then triggerMiss i cl (cl\<lparr>position := (x, y, z), velocity := v\<rparr>)
              else (cl\<lparr>position := (x, y, z), velocity := v\<rparr>, []))"
  using assms by (simp add: spearFrame_def newVelocity_def newPosition_def Let_def)

lemma triggerMiss_fst:
  "position (fst (triggerMiss i cl st)) = position st"
  "velocity (fst (triggerMiss i cl st)) = velocity st"
  "isActive (fst (triggerMiss i cl st)) = isActive st"
  "hasHitAnimal (fst (triggerMiss i cl st)) = hasHitAnimal st"
  "length (snd (triggerMiss i cl st)) \<le> Suc 0"
  by (simp_all add: triggerMiss_def)

text \<open>
  What a tick does to a spear that is rendered (\<open>meshRef.current\<close> is set), active and
  not paused: the y velocity first loses \<open>9.8 \<sqdot> delta\<close> and the position then
  advances by the new velocity times \<open>delta\<close>. The
  three terminal conditions are tried in order on the new position: on the backboard the
  z coordinate is set to the plane \<open>-29.9\<close> and the spear is deactivated (the y coordinate
  is left alone even when it is below the floor); otherwise, at or below the floor height the
  y coordinate is set to \<open>-3.25\<close> and the spear is deactivated; otherwise the position is
  the integrated one. One tick emits at most one event.
\<close>

theorem rendered_spear_integrates_then_one_branch:
  assumes "mesh" and "isActive cl" and "\<not> paused"
    and "velocity cl = (vx, vy, vz)" and "position cl = (px, py, pz)"
    and "x = px + vx * delta" and "y = py + (vy - 9.8 * delta) * delta" and "z = pz + vz * delta"
    and "backstop = (z \<le> - 29.9 \<and> x \<ge> - 5 \<and> x \<le> 5 \<and> y \<ge> - 5 \<and> y \<le> 3)"
    and "ground = (y \<le> - 3.25)"
    and "st' = fst (spearFrame mesh paused delta i cl)"
  shows "velocity st' = (vx, vy - 9.8 * delta, vz)
       \<and> (backstop \<longrightarrow> position st' = (x, y, - 29.9) \<and> \<not> isActive st')
       \<and> (\<not> backstop \<and> ground \<longrightarrow> position st' = (x, - 3.25, z) \<and> \<not> isActive st')
       \<and> (\<not> backstop \<and> \<not> ground \<longrightarrow> position st' = (x, y, z))
       \<and> length (snd (spearFrame mesh paused delta i cl)) \<le> 1"
proof -
  let ?v = "(vx, vy - 9.8 * delta, vz)"
  have bb: "hitsBackboard (x, y, z) = backstop" by (simp add: hitsBackboard_def assms(9))
  have gr: "hitsGround (x, y, z) = ground" by (simp add: hitsGround_def assms(10))
  have fr: "spearFrame mesh paused delta i cl =
     (if backstop
      then triggerMiss i cl (cl\<lparr>position := (x, y, - 29.9), velocity := ?v, isActive := False\<rparr>)
      else if ground
      then triggerMiss i cl (cl\<lparr>position := (x, - 3.25, z), velocity := ?v, isActive := False\<rparr>)
      else if outOfBounds (x, y, z)
      then triggerMiss i cl (cl\<lparr>position := (x, y, z), velocity := ?v\<rparr>)
      else (cl\<lparr>position := (x, y, z), velocity := ?v\<rparr>, []))"
    unfolding spearFrame_active [OF assms(1-5)] Let_def bb [symmetric] gr [symmetric]
      assms(6-8) ..
  show ?thesis
    unfolding assms(11) fr by (simp add: triggerMiss_fst)
qed

theorem rendered_spear_integrates_then_one_branch_witness:
  "velocity (fst (spearFrame True False 0.05 3 lowSpear)) = (0, - 1.49, - 39)
   \<and> position (fst (spearFrame True False 0.05 3 lowSpear)) = (0, - 3.2745, - 29.9)
   \<and> \<not> isActive (fst (spearFrame True False 0.05 3 lowSpear))
   \<and> length (snd (spearFrame True False 0.05 3 lowSpear)) \<le> 1"
proof -
  have v: "velocity lowSpear = (0, - 1, - 39)" and p: "position lowSpear = (0, - 3.2, - 29.5)"
    and a: "isActive lowSpear"
    by (simp_all add: lowSpear_def)
  note th = rendered_spear_integrates_then_one_branch
    [where mesh = True and paused = False and cl = lowSpear and delta = "0.05" and i = 3,
     OF TrueI a _ v p refl refl refl refl refl refl]
  from th show ?thesis by simp
qed

text \<open>
  C5. The out-of-bounds branch at the failing input: the spear \<open>highSpear\<close> crosses
  \<open>z = -35\<close> above the backboard. The position is the integrated one (not clamped) and the
  miss is emitted, but \<open>isActive\<close> is still true after the tick: the branch has no
  \<open>setIsActive(false)\<close>, which the two branches before it have.
\<close>

theorem out_of_bounds_stays_active:
  "spearFrame True False 0.05 0 highSpear =
     (\<lparr>position = (2, 9.0005, - 35.95), velocity = (0, - 7.99, - 39), isActive = True,
        hasTriggeredMiss = True, hasHitAnimal = False\<rparr>, [Miss 0])"
  by (simp add: spearFrame_def highSpear_def newVelocity_def newPosition_def Let_def
      hitsBackboard_def hitsGround_def outOfBounds_def triggerMiss_def)

theorem out_of_bounds_stays_active_witness:
  "isActive (fst (spearFrame True False 0.05 0 highSpear))
   \<and> outOfBounds (position (fst (spearFrame True False 0.05 0 highSpear)))"
  using out_of_bounds_stays_active by (simp add: outOfBounds_def)






section \<open>Animal motor and collision resolver: results\<close>

lemma sqrt_less_3: "sqrt x < 3 \<longleftrightarrow> x < 9"
proof -
  have "sqrt 9 = (3::real)" by (rule real_sqrt_unique) simp_all
  then have "sqrt x < 3 \<longleftrightarrow> sqrt x < sqrt 9" by simp
  also have "\<dots> \<longleftrightarrow> x < 9" by (rule real_sqrt_less_iff)
  finally show ?thesis by simp
qed

lemma distance_hit:
  "distance (ax, ay, az) (bx, by, bz) < 3 \<longleftrightarrow>
   (ax - bx) * (ax - bx) + (ay - by) * (ay - by) + (az - bz) * (az - bz) < 9"
  by (simp only: distance_def prod.case sqrt_less_3 power2_eq_square)

lemma animalFrame_idle:
  "\<not> mesh \<or> \<not> isAlive cl \<or> paused \<Longrightarrow>
   animalFrame v pick mesh paused delta ad cl sps =
     \<lparr>outComp = cl, outSpears = sps, outEvents = [], outTimers = []\<rparr>"
  by (auto simp add: animalFrame_def)

lemma animalFrame_arrival:
  "mesh \<Longrightarrow> isAlive cl \<Longrightarrow> \<not> paused \<Longrightarrow> snd (snd (movedPosition ad cl delta)) \<ge> 8 \<Longrightarrow>
   animalFrame v pick mesh paused delta ad cl sps =
     \<lparr>outComp = cl\<lparr>isAlive := False\<rparr>, outSpears = sps,
      outEvents = [ReachPlayer (damage (animalType ad)) (idArg v (animalId ad))], outTimers = []\<rparr>"
  by (simp add: animalFrame_def Let_def)

lemma animalFrame_moving:
  "mesh \<Longrightarrow> isAlive cl \<Longrightarrow> \<not> paused \<Longrightarrow> \<not> snd (snd (movedPosition ad cl delta)) \<ge> 8 \<Longrightarrow>
   animalFrame v pick mesh paused delta ad cl sps =
     (let acc = foldl (collide v pick paused ad cl (movedPosition ad cl delta))
                  \<lparr>outComp = cl, outSpears = [], outEvents = [], outTimers = []\<rparr> sps
      in acc\<lparr>outComp := (outComp acc)\<lparr>animalPos := movedPosition ad cl delta\<rparr>\<rparr>)"
  by (simp add: animalFrame_def Let_def)

lemma collide_no_arrival:
  "ReachPlayer d i \<notin> set (outEvents acc) \<Longrightarrow>
   ReachPlayer d i \<notin> set (outEvents (collide v pick paused ad cl p acc sp))"
  by (auto simp add: collide_def Let_def)

lemma foldl_collide_no_arrival:
  "ReachPlayer d i \<notin> set (outEvents acc) \<Longrightarrow>
   ReachPlayer d i \<notin> set (outEvents (foldl (collide v pick paused ad cl p) acc sps))"
proof (induction sps arbitrary: acc)
  case Nil
  then show ?case by simp
next
  case (Cons sp sps)
  show ?case
    unfolding foldl_Cons
    by (rule Cons.IH) (rule collide_no_arrival [OF Cons.prems])
qed

text \<open>
  An animal that is alive is not dying: true of a new animal, and kept by every frame (the
  death timer only sets \<open>isDying\<close> back to false).
\<close>

lemma collide_alive_not_dying:
  "isAlive (outComp acc) \<longrightarrow> \<not> isDying (outComp acc) \<Longrightarrow>
   isAlive (outComp (collide v pick paused ad cl p acc sp))
     \<longrightarrow> \<not> isDying (outComp (collide v pick paused ad cl p acc sp))"
  by (simp add: collide_def Let_def)

lemma foldl_collide_alive_not_dying:
  "isAlive (outComp acc) \<longrightarrow> \<not> isDying (outComp acc) \<Longrightarrow>
   isAlive (outComp (foldl (collide v pick paused ad cl p) acc sps))
     \<longrightarrow> \<not> isDying (outComp (foldl (collide v pick paused ad cl p) acc sps))"
proof (induction sps arbitrary: acc)
  case Nil
  then show ?case by simp
next
  case (Cons sp sps)
  show ?case
    unfolding foldl_Cons
    by (rule Cons.IH) (rule collide_alive_not_dying [OF Cons.prems])
qed

lemma animalFrame_alive_not_dying:
  assumes "isAlive cl \<longrightarrow> \<not> isDying cl"
  shows "isAlive (outComp (animalFrame v pick mesh paused delta ad cl sps))
           \<longrightarrow> \<not> isDying (outComp (animalFrame v pick mesh paused delta ad cl sps))"
proof (cases "\<not> mesh \<or> \<not> isAlive cl \<or> paused")
  case True
  from animalFrame_idle [OF True] assms show ?thesis by simp
next
  case False
  show ?thesis
  proof (cases "snd (snd (movedPosition ad cl delta)) \<ge> 8")
    case True
    with False show ?thesis by (simp add: animalFrame_def Let_def)
  next
    case ge: False
    have "isAlive (outComp (foldl (collide v pick paused ad cl (movedPosition ad cl delta))
               \<lparr>outComp = cl, outSpears = [], outEvents = [], outTimers = []\<rparr> sps))
       \<longrightarrow> \<not> isDying (outComp (foldl (collide v pick paused ad cl (movedPosition ad cl delta))
               \<lparr>outComp = cl, outSpears = [], outEvents = [], outTimers = []\<rparr> sps))"
      by (rule foldl_collide_alive_not_dying) (use assms in simp)
    with False ge show ?thesis by (simp add: animalFrame_def Let_def)
  qed
qed

lemma newAnimalComp_alive_not_dying:
  "isAlive (newAnimalComp ad) \<and> \<not> isDying (newAnimalComp ad) \<and> animalMounted (newAnimalComp ad)"
  by (simp add: newAnimalComp_def animalMounted_def)

lemma movedPosition_eq:
  "animalPos cl = (x, y, z) \<Longrightarrow>
   movedPosition ad cl delta =
     (x, y, z + (baseSpeed (animalType ad)
                 + of_int (typeHealth (animalType ad) - health cl) * speedIncrease (animalType ad))
               * delta)"
  by (simp add: movedPosition_def currentSpeed_def)

text \<open>
  C7 (as amended). In a tick of a mounted, alive, unpaused animal the new position differs
  from the old one in z only, by \<open>speed \<sqdot> delta\<close> with
  \<open>speed = baseSpeed + (maxHealth - health) \<sqdot> speedIncrease\<close>. If the new z is at least 8,
  the tick makes exactly one call, \<open>onReachPlayer\<close>, with the archetype's damage and, in
  \<open>App.jsx\<close>, the animal's id (no id in \<open>part_000\<close>); it sets no timer and touches no
  spear (no collision check), the animal is no longer drawn and is not dying, and no later
  frame of it emits anything. Otherwise the position is stored and no arrival is reported.
\<close>

theorem animal_motor_and_arrival:
  assumes "mesh" and "isAlive cl" and "\<not> isDying cl" and "\<not> paused"
    and "animalPos cl = (x, y, z)"
    and "speed = baseSpeed (animalType ad)
           + of_int (typeHealth (animalType ad) - health cl) * speedIncrease (animalType ad)"
    and "out = animalFrame v pick mesh paused delta ad cl sps"
  shows "(z + speed * delta \<ge> 8 \<longrightarrow>
            outEvents out = [ReachPlayer (damage (animalType ad)) (idArg v (animalId ad))]
          \<and> outTimers out = [] \<and> outSpears out = sps
          \<and> \<not> animalMounted (outComp out) \<and> \<not> isDying (outComp out)
          \<and> health (outComp out) = health cl
          \<and> outEvents (animalFrame v pick mesh' paused' delta' ad (outComp out) sps') = [])
       \<and> (\<not> z + speed * delta \<ge> 8 \<longrightarrow>
            animalPos (outComp out) = (x, y, z + speed * delta)
          \<and> (\<forall>d i. ReachPlayer d i \<notin> set (outEvents out)))
       \<and> idArg PoseApp (animalId ad) = Some (animalId ad)
       \<and> idArg HandsApp (animalId ad) = None"
proof -
  have mp: "movedPosition ad cl delta = (x, y, z + speed * delta)"
    using movedPosition_eq [OF assms(5)] assms(6) by simp
  have arrive: "z + speed * delta \<ge> 8 \<Longrightarrow>
      out = \<lparr>outComp = cl\<lparr>isAlive := False\<rparr>, outSpears = sps,
        outEvents = [ReachPlayer (damage (animalType ad)) (idArg v (animalId ad))], outTimers = []\<rparr>"
    unfolding assms(7) by (rule animalFrame_arrival [OF assms(1,2,4)]) (simp add: mp)
  have move: "\<not> z + speed * delta \<ge> 8 \<Longrightarrow>
      out = (let acc = foldl (collide v pick paused ad cl (movedPosition ad cl delta))
                  \<lparr>outComp = cl, outSpears = [], outEvents = [], outTimers = []\<rparr> sps
      in acc\<lparr>outComp := (outComp acc)\<lparr>animalPos := movedPosition ad cl delta\<rparr>\<rparr>)"
    unfolding assms(7) by (rule animalFrame_moving [OF assms(1,2,4)]) (simp add: mp)
  have a: "z + speed * delta \<ge> 8 \<longrightarrow>
            outEvents out = [ReachPlayer (damage (animalType ad)) (idArg v (animalId ad))]
          \<and> outTimers out = [] \<and> outSpears out = sps
          \<and> \<not> animalMounted (outComp out) \<and> \<not> isDying (outComp out)
          \<and> health (outComp out) = health cl
          \<and> outEvents (animalFrame v pick mesh' paused' delta' ad (outComp out) sps') = []"
  proof
    assume ge: "z + speed * delta \<ge> 8"
    have idle: "animalFrame v pick mesh' paused' delta' ad (cl\<lparr>isAlive := False\<rparr>) sps'
        = \<lparr>outComp = cl\<lparr>isAlive := False\<rparr>, outSpears = sps', outEvents = [], outTimers = []\<rparr>"
      by (rule animalFrame_idle) simp
    show "outEvents out = [ReachPlayer (damage (animalType ad)) (idArg v (animalId ad))]
          \<and> outTimers out = [] \<and> outSpears out = sps
          \<and> \<not> animalMounted (outComp out) \<and> \<not> isDying (outComp out)
          \<and> health (outComp out) = health cl
          \<and> outEvents (animalFrame v pick mesh' paused' delta' ad (outComp out) sps') = []"
      using assms(3) by (simp add: arrive [OF ge] animalMounted_def idle)
  qed
  have b: "\<not> z + speed * delta \<ge> 8 \<longrightarrow>
            animalPos (outComp out) = (x, y, z + speed * delta)
          \<and> (\<forall>d i. ReachPlayer d i \<notin> set (outEvents out))"
  proof
    assume lt: "\<not> z + speed * delta \<ge> 8"
    have "ReachPlayer d i \<notin> set (outEvents (foldl (collide v pick paused ad cl (movedPosition ad cl delta))
                  \<lparr>outComp = cl, outSpears = [], outEvents = [], outTimers = []\<rparr> sps))" for d i
      by (rule foldl_collide_no_arrival) simp
    then show "animalPos (outComp out) = (x, y, z + speed * delta)
          \<and> (\<forall>d i. ReachPlayer d i \<notin> set (outEvents out))"
      by (simp add: move [OF lt] Let_def mp)
  qed
  from a b show ?thesis by simp
qed


theorem animal_motor_and_arrival_witness:
  "outEvents (animalFrame PoseApp hitText True False 1 elephant9 atTheDoor [spear5])
     = [ReachPlayer 50 (Some 9)]
   \<and> outTimers (animalFrame PoseApp hitText True False 1 elephant9 atTheDoor [spear5]) = []
   \<and> outSpears (animalFrame PoseApp hitText True False 1 elephant9 atTheDoor [spear5]) = [spear5]
   \<and> \<not> animalMounted (outComp (animalFrame PoseApp hitText True False 1 elephant9 atTheDoor [spear5]))
   \<and> animalPos (outComp (animalFrame PoseApp hitText True False 1 elephant9 wounded []))
     = (0, - 4, - 8.4)"
proof -
  have a: "isAlive atTheDoor" "\<not> isDying atTheDoor" "animalPos atTheDoor = (0, - 4, 7.9)"
    by (simp_all add: atTheDoor_def)
  have b: "isAlive wounded" "\<not> isDying wounded" "animalPos wounded = (0, - 4, - 10)"
    by (simp_all add: wounded_def)
  note arrive = animal_motor_and_arrival
    [where mesh = True and paused = False and cl = atTheDoor and ad = elephant9 and delta = 1
       and v = PoseApp and pick = hitText and sps = "[spear5]",
     OF TrueI a(1) a(2) _ a(3) refl refl]
  note move = animal_motor_and_arrival
    [where mesh = True and paused = False and cl = wounded and ad = elephant9 and delta = 1
       and v = PoseApp and pick = hitText and sps = "[]",
     OF TrueI b(1) b(2) _ b(3) refl refl]
  from arrive move show ?thesis
    by (simp add: elephant9_def ELEPHANT_def atTheDoor_def wounded_def)
qed

text \<open>
  C7 as stated fails on \<open>part_000\<close>: its \<open>Animal\<close> calls \<open>onReachPlayer(damage)\<close>, so the
  arrival carries no animal id.
\<close>

theorem arrival_without_id_in_hands_variant:
  "outEvents (animalFrame HandsApp hitText True False 1 elephant9 atTheDoor [])
     = [ReachPlayer 50 None]
   \<and> outEvents (animalFrame HandsApp hitText True False 1 elephant9 atTheDoor [])
     \<noteq> [ReachPlayer 50 (Some 9)]"
  by (simp add: animalFrame_def movedPosition_def currentSpeed_def elephant9_def ELEPHANT_def
      atTheDoor_def Let_def)

lemma antelope_frame:
  "animalFrame PoseApp hitText True False 0.1 antelope7 walking [spear3] =
     \<lparr>outComp = \<lparr>animalPos = (0, - 4, - 9.94), health = 0, isAlive = False, stuckSpears = [3],
                 isDying = True\<rparr>,
      outSpears = [spear3\<lparr>dataIsActive := False\<rparr>],
      outEvents = [SetHasHitAnimal 3, HitMessage ''HIT!'', Hit 50 3 (Some 7)],
      outTimers = [(500, CallOnHit 50 3 (Some 7)), (800, DeathAnimationDone PoseApp False 7)]\<rparr>"
  by (simp add: animalFrame_def antelope7_def walking_def spear3_def ANTELOPE_def movedPosition_def
      currentSpeed_def collide_def distance_hit Let_def deathAnimationDuration_def hitText_def)

lemma elephant_frame:
  "animalFrame PoseApp hitText True False 0.1 elephant9 wounded [spear5, spear6] =
     \<lparr>outComp = \<lparr>animalPos = (0, - 4, - 9.84), health = 0, isAlive = False,
                 stuckSpears = [1, 2, 5, 6], isDying = True\<rparr>,
      outSpears = [spear5\<lparr>dataIsActive := False\<rparr>, spear6\<lparr>dataIsActive := False\<rparr>],
      outEvents = [SetHasHitAnimal 5, HitMessage ''HIT!'', Hit 100 5 (Some 9),
                   SetHasHitAnimal 6, HitMessage ''HIT!'', Hit 100 6 (Some 9)],
      outTimers = [(500, CallOnHit 100 5 (Some 9)), (3000, DeathAnimationDone PoseApp False 9),
                   (500, CallOnHit 100 6 (Some 9)), (3000, DeathAnimationDone PoseApp False 9)]\<rparr>"
  by (simp add: animalFrame_def elephant9_def wounded_def spear5_def spear6_def ELEPHANT_def
      movedPosition_def currentSpeed_def collide_def distance_hit Let_def
      deathAnimationDuration_def hitText_def)

text \<open>
  C1. Two failing inputs. The antelope (worth 50) takes one lethal hit from spear 3: the
  frame calls \<open>onHit\<close> at once and sets the 500 ms timer that calls it again, so the kill
  adds 100 to the score. The elephant (worth 100) at health 1 is in reach of spears 5 and
  6 in one tick: the loop reads \<open>health\<close> of the last render for both, health ends at 0,
  and both spears score the lethal hit twice (400 in all) and start a death timer each.
\<close>

theorem lethal_hit_scores_twice:
  "typeScore (animalType antelope7) = 50
   \<and> onHitCalls (animalFrame PoseApp hitText True False 0.1 antelope7 walking [spear3])
       = [(50, 3), (50, 3)]
   \<and> score (settleHits (animalFrame PoseApp hitText True False 0.1 antelope7 walking [spear3])
              initialApp) = 100
   \<and> typeScore (animalType elephant9) = 100
   \<and> health (outComp (animalFrame PoseApp hitText True False 0.1 elephant9 wounded
                         [spear5, spear6])) = 0
   \<and> onHitCalls (animalFrame PoseApp hitText True False 0.1 elephant9 wounded [spear5, spear6])
       = [(100, 5), (100, 6), (100, 5), (100, 6)]
   \<and> score (settleHits (animalFrame PoseApp hitText True False 0.1 elephant9 wounded
                          [spear5, spear6]) initialApp) = 400
   \<and> map snd (outTimers (animalFrame PoseApp hitText True False 0.1 elephant9 wounded
                            [spear5, spear6]))
       = [CallOnHit 100 5 (Some 9), DeathAnimationDone PoseApp False 9,
          CallOnHit 100 6 (Some 9), DeathAnimationDone PoseApp False 9]"
  unfolding antelope_frame elephant_frame
  by (simp add: onHitCalls_def settleHits_def handleAnimalHit_def
      Let_def initialApp_def antelope7_def elephant9_def ANTELOPE_def ELEPHANT_def)

theorem lethal_hit_scores_twice_witness:
  "length (onHitCalls (animalFrame PoseApp hitText True False 0.1 antelope7 walking [spear3])) = 2"
  using lethal_hit_scores_twice by simp

section \<open>Miss events: results\<close>

lemma spearFrame_events:
  "snd (spearFrame mesh paused delta i st) = []
   \<or> (snd (spearFrame mesh paused delta i st) = [Miss i]
        \<and> \<not> hasTriggeredMiss st \<and> \<not> hasHitAnimal st
        \<and> hasTriggeredMiss (fst (spearFrame mesh paused delta i st)))"
  by (simp add: spearFrame_def triggerMiss_def Let_def split: prod.splits)

lemma spearFrame_latches:
  "hasTriggeredMiss st \<Longrightarrow> hasTriggeredMiss (fst (spearFrame mesh paused delta i st))"
  "hasHitAnimal (fst (spearFrame mesh paused delta i st)) = hasHitAnimal st"
  by (simp_all add: spearFrame_def triggerMiss_def Let_def split: prod.splits)

lemma spearLife_silent:
  "hasTriggeredMiss st \<or> hasHitAnimal st \<Longrightarrow> spearLife i ts st = []"
proof (induction ts arbitrary: st)
  case Nil
  then show ?case by simp
next
  case (Cons t ts)
  obtain st' evs where f: "spearFrame (spearMounted st) (tickPaused t) (tickDelta t) i st = (st', evs)"
    by (cases "spearFrame (spearMounted st) (tickPaused t) (tickDelta t) i st")
  from spearFrame_events [of "spearMounted st" "tickPaused t" "tickDelta t" i st] f Cons.prems
  have e: "evs = []" by auto
  from spearFrame_latches [where st = st and mesh = "spearMounted st" and paused = "tickPaused t"
      and delta = "tickDelta t" and i = i] f Cons.prems
  have "hasTriggeredMiss st' \<or> hasHitAnimal st'" by auto
  then have "hasTriggeredMiss (st'\<lparr>hasHitAnimal := hasHitAnimal st' \<or> tickHit t\<rparr>)
      \<or> hasHitAnimal (st'\<lparr>hasHitAnimal := hasHitAnimal st' \<or> tickHit t\<rparr>)" by auto
  from Cons.IH [OF this] f e show ?case by simp
qed

lemma spearLife_at_most_one_miss:
  "spearLife i ts st = [] \<or> spearLife i ts st = [Miss i]"
proof (induction ts arbitrary: st)
  case Nil
  then show ?case by simp
next
  case (Cons t ts)
  obtain st' evs where f: "spearFrame (spearMounted st) (tickPaused t) (tickDelta t) i st = (st', evs)"
    by (cases "spearFrame (spearMounted st) (tickPaused t) (tickDelta t) i st")
  let ?next = "st'\<lparr>hasHitAnimal := hasHitAnimal st' \<or> tickHit t\<rparr>"
  from spearFrame_events [of "spearMounted st" "tickPaused t" "tickDelta t" i st] f
  consider "evs = []" | "evs = [Miss i]" "hasTriggeredMiss st'" by auto
  then show ?case
  proof cases
    case 1
    with Cons.IH [of ?next] f show ?thesis by simp
  next
    case 2
    then have "hasTriggeredMiss ?next \<or> hasHitAnimal ?next" by simp
    from spearLife_silent [OF this] 2 f show ?thesis by simp
  qed
qed

lemma flying3_frame:
  "spearFrame True False 0.1 3 flying3 =
     (\<lparr>position = (0, - 3.25, - 11.9), velocity = (0, - 1.95, - 39), isActive = False,
       hasTriggeredMiss = True, hasHitAnimal = False\<rparr>, [Miss 3])"
  by (simp add: spearFrame_def flying3_def newVelocity_def newPosition_def Let_def
      hitsBackboard_def hitsGround_def outOfBounds_def triggerMiss_def)

lemma render3: "renderSpear flying3 spear3 = spear3"
  by (simp add: renderSpear_def flying3_def spear3_def)

text \<open>
  C2. The failing input: spear 3 is within the hit radius of the antelope and reaches the
  ground in the same tick. Whichever callback runs first, the tick emits both the hit
  (\<open>setHasHitAnimal(true)\<close>, \<open>onHit\<close>) and \<open>onMiss\<close> for spear 3: the spear's callback
  reads \<open>hasHitAnimal\<close> of the last render, the animal's callback reads \<open>isActive\<close> of the
  shared object as the last render left it.
\<close>

theorem hit_and_miss_in_one_tick:
  "tickAnimalThenSpear PoseApp hitText 0.1 antelope7 walking spear3 flying3
     = [SetHasHitAnimal 3, HitMessage ''HIT!'', Hit 50 3 (Some 7), Miss 3]
   \<and> tickSpearThenAnimal PoseApp hitText 0.1 antelope7 walking spear3 flying3
     = [Miss 3, SetHasHitAnimal 3, HitMessage ''HIT!'', Hit 50 3 (Some 7)]"
proof -
  have m: "animalMounted walking" by (simp add: animalMounted_def walking_def)
  have s: "spearMounted flying3" by (simp add: spearMounted_def flying3_def outOfBounds_def)
  have d: "dataId spear3 = 3" by (simp add: spear3_def)
  show ?thesis
    unfolding tickAnimalThenSpear_def tickSpearThenAnimal_def render3 d Let_def
      eqTrueI [OF m] eqTrueI [OF s] antelope_frame flying3_frame
    by simp
qed

theorem hit_and_miss_in_one_tick_witness:
  "Miss 3 \<in> set (tickAnimalThenSpear PoseApp hitText 0.1 antelope7 walking spear3 flying3)
   \<and> SetHasHitAnimal 3 \<in> set (tickAnimalThenSpear PoseApp hitText 0.1 antelope7 walking spear3 flying3)"
  using hit_and_miss_in_one_tick by simp

section \<open>Session: how a step changes the registry\<close>

lemma animalsStep_same:
  "animals s' = animals s \<Longrightarrow> animalIdCounter s' = animalIdCounter s \<Longrightarrow> animalsStep s s'"
  unfolding animalsStep_def by (intro disjI1 exI [of _ "\<lambda>_. True"]) simp

lemma animalsStep_filter:
  "animals s' = filter P (animals s) \<Longrightarrow> animalIdCounter s' = animalIdCounter s \<Longrightarrow> animalsStep s s'"
  unfolding animalsStep_def by blast

lemma spearsStep_same:
  "thrownSpears s' = thrownSpears s \<Longrightarrow> spearIdCounter s' = spearIdCounter s \<Longrightarrow> spearsStep s s'"
  unfolding spearsStep_def by (intro disjI1 exI [of _ "\<lambda>_. True"]) simp

lemma spearsStep_filter:
  "thrownSpears s' = filter P (thrownSpears s) \<Longrightarrow> spearIdCounter s' = spearIdCounter s
   \<Longrightarrow> spearsStep s s'"
  unfolding spearsStep_def by blast

lemma selectType_ANIMAL_TYPES: "\<exists>ty. selectType r ANIMAL_TYPES = Some ty"
  by (simp add: ANIMAL_TYPES_def)

lemma spawnNewAnimal_animals: "animalsStep s (spawnNewAnimal pausedC dead inp s)"
proof -
  obtain ty where ty: "selectType (randomType inp * totalWeight ANIMAL_TYPES) ANIMAL_TYPES = Some ty"
    using selectType_ANIMAL_TYPES by blast
  show ?thesis
  proof (cases "case dead of None \<Rightarrow> None | Some d \<Rightarrow> if d = 0 then None else Some d")
    case None
    show ?thesis
    proof (cases pausedC)
      case True
      with None show ?thesis by (simp add: spawnNewAnimal_def animalsStep_same)
    next
      case False
      with None ty show ?thesis by (simp add: spawnNewAnimal_def animalsStep_def)
    qed
  next
    case (Some d)
    then show ?thesis by (simp add: spawnNewAnimal_def animalsStep_filter)
  qed
qed

lemma spawnNewAnimal_other:
  "thrownSpears (spawnNewAnimal pausedC dead inp s) = thrownSpears s"
  "spearIdCounter (spawnNewAnimal pausedC dead inp s) = spearIdCounter s"
  "lastFireTime (spawnNewAnimal pausedC dead inp s) = lastFireTime s"
  by (simp_all add: spawnNewAnimal_def split: option.splits)

lemma handleAnimalHit_spears: "spearsStep s (handleAnimalHit sc sid s)"
  by (cases "sid = 0") (simp_all add: handleAnimalHit_def Let_def spearsStep_same spearsStep_filter)

lemma handleAnimalHit_other:
  "animals (handleAnimalHit sc sid s) = animals s"
  "animalIdCounter (handleAnimalHit sc sid s) = animalIdCounter s"
  "lastFireTime (handleAnimalHit sc sid s) = lastFireTime s"
  by (simp_all add: handleAnimalHit_def Let_def)

lemma runCallback_animals: "animalsStep s (runCallback cb inp s)"
proof (cases cb)
  case (DeathAnimationDone v p i)
  then show ?thesis by (cases v) (simp_all add: spawnNewAnimal_animals animalsStep_same)
qed (simp_all add: spawnNewAnimal_animals animalsStep_same handleAnimalHit_other)

lemma runCallback_spears: "spearsStep s (runCallback cb inp s)"
proof (cases cb)
  case (DeathAnimationDone v p i)
  then show ?thesis by (cases v) (simp_all add: spawnNewAnimal_other spearsStep_same)
next
  case (RemoveSpear i)
  then show ?thesis by (simp add: spearsStep_filter)
qed (simp_all add: spawnNewAnimal_other spearsStep_same handleAnimalHit_spears)

lemma runCallback_lastFireTime: "lastFireTime (runCallback cb inp s) = lastFireTime s"
proof (cases cb)
  case (DeathAnimationDone v p i)
  then show ?thesis by (cases v) (simp_all add: spawnNewAnimal_other)
qed (simp_all add: spawnNewAnimal_other handleAnimalHit_other)

lemma fireTimer_animals: "animalsStep s (fireTimer k inp s)"
proof (cases "k < length (timers s)")
  case True
  have "animalsStep (s\<lparr>timers := take k (timers s) @ drop (Suc k) (timers s)\<rparr>) (fireTimer k inp s)"
    using True by (simp add: fireTimer_def runCallback_animals)
  then show ?thesis by (simp add: animalsStep_def)
next
  case False
  then show ?thesis by (simp add: fireTimer_def animalsStep_same)
qed

lemma fireTimer_spears: "spearsStep s (fireTimer k inp s)"
proof (cases "k < length (timers s)")
  case True
  have "spearsStep (s\<lparr>timers := take k (timers s) @ drop (Suc k) (timers s)\<rparr>) (fireTimer k inp s)"
    using True by (simp add: fireTimer_def runCallback_spears)
  then show ?thesis by (simp add: spearsStep_def)
next
  case False
  then show ?thesis by (simp add: fireTimer_def spearsStep_same)
qed

lemma fireTimer_lastFireTime: "lastFireTime (fireTimer k inp s) = lastFireTime s"
  by (simp add: fireTimer_def runCallback_lastFireTime)

lemma raised_has_head:
  "detectHandRaised (Some ls) \<Longrightarrow> \<exists>h. getHeadPosition (Some ls) = Some h"
  by (cases "length ls < 33") (simp_all add: detectHandRaised_def getHeadPosition_def)

lemma poseEffect_cases:
  "poseEffect inp s = s
   \<or> (\<exists>aim st. poseEffect inp s = s\<lparr>headPosition := Some aim, spearState := st\<rparr>
         \<and> (st = spearState s \<or> spearState s = Idle \<and> st = Gripped
               \<or> spearState s = Gripped \<and> st = Idle \<and> \<not> detectHandRaised (poseLandmarks inp))
         \<and> (spearState s = Gripped \<and> detectHandRaised (poseLandmarks inp)
                \<and> headPosition s \<noteq> None \<longrightarrow> now inp - lastFireTime s < FIRE_COOLDOWN))
   \<or> (\<exists>aim aim' sp. poseEffect inp s =
           s\<lparr>headPosition := Some aim, spearIdCounter := Suc (spearIdCounter s),
              thrownSpears := thrownSpears s @ [sp], spearState := Throwing,
              lastFireTime := now inp, timers := timers s @ [(500, BackToGripped)]\<rparr>
         \<and> sp = \<lparr>dataId = spearIdCounter s, dataPosition = aim', dataVelocity = throwVelocity,
                  dataTimestamp = now inp, dataIsActive = True, dataHasHitAnimal = False\<rparr>
         \<and> headPosition s = Some aim'
         \<and> spearState s = Gripped \<and> detectHandRaised (poseLandmarks inp)
         \<and> isReady inp \<and> \<not> isPaused s
         \<and> now inp - lastFireTime s \<ge> FIRE_COOLDOWN)"
  (is "?A \<or> ?B \<or> ?C")
proof (cases "poseLandmarks inp")
  case None
  then show ?thesis by (simp add: poseEffect_def)
next
  case (Some ls)
  note lm = this
  show ?thesis
  proof (cases "\<not> isReady inp \<or> isPaused s")
    case True
    with lm have ?A by (auto simp add: poseEffect_def)
    then show ?thesis by blast
  next
    case False
    note active = this
    show ?thesis
    proof (cases "detectHandRaised (Some ls) \<and> spearState s = Gripped \<and> headPosition s \<noteq> None")
      case True
      note att = this
      then obtain h aim' where h: "getHeadPosition (Some ls) = Some h" "headPosition s = Some aim'"
        using raised_has_head by blast
      show ?thesis
      proof (cases "now inp - lastFireTime s \<ge> FIRE_COOLDOWN")
        case True
        have "poseEffect inp s =
           s\<lparr>headPosition := Some (aimPosition (cameraRotation s) h),
              spearIdCounter := Suc (spearIdCounter s),
              thrownSpears := thrownSpears s @ [\<lparr>dataId = spearIdCounter s, dataPosition = aim',
                  dataVelocity = throwVelocity,
                  dataTimestamp = now inp, dataIsActive = True, dataHasHitAnimal = False\<rparr>],
              spearState := Throwing,
              lastFireTime := now inp, timers := timers s @ [(500, BackToGripped)]\<rparr>"
          using lm active att h True by (simp add: poseEffect_def Let_def)
        with lm active att h True have ?C
          by (intro exI [of _ "aimPosition (cameraRotation s) h"] exI [of _ aim']
                exI [of _ "\<lparr>dataId = spearIdCounter s, dataPosition = aim',
                  dataVelocity = throwVelocity,
                  dataTimestamp = now inp, dataIsActive = True, dataHasHitAnimal = False\<rparr>"]) simp
        then show ?thesis by blast
      next
        case False
        have "poseEffect inp s =
           s\<lparr>headPosition := Some (aimPosition (cameraRotation s) h), spearState := Gripped\<rparr>"
          using lm active att h False by (simp add: poseEffect_def Let_def)
        with False att have ?B
          by (intro exI [of _ "aimPosition (cameraRotation s) h"] exI [of _ Gripped]) simp
        then show ?thesis by blast
      qed
    next
      case False
      note nofire = this
      show ?thesis
      proof (cases "getHeadPosition (Some ls)")
        case None
        then have nr: "\<not> detectHandRaised (Some ls)" using raised_has_head by fastforce
        have "poseEffect inp s =
           s\<lparr>headPosition := Some (0, - 2, 5),
              spearState := (if spearState s = Gripped then Idle else spearState s)\<rparr>"
          using lm active None nr
          by (cases "headPosition s") (simp_all add: poseEffect_def Let_def)
        with nr lm have ?B
          by (intro exI [of _ "(0, - 2, 5)"]
                exI [of _ "if spearState s = Gripped then Idle else spearState s"]) simp
        then show ?thesis by blast
      next
        case (Some h)
        have "poseEffect inp s =
           s\<lparr>headPosition := Some (aimPosition (cameraRotation s) h),
              spearState := (if spearState s = Idle then Gripped else spearState s)\<rparr>"
          using lm active Some nofire
          by (cases "headPosition s") (auto simp add: poseEffect_def Let_def)
        with nofire lm have ?B
          by (intro exI [of _ "aimPosition (cameraRotation s) h"]
                exI [of _ "if spearState s = Idle then Gripped else spearState s"]) auto
        then show ?thesis by blast
      qed
    qed
  qed
qed

lemma poseEffect_other:
  "animals (poseEffect inp s) = animals s"
  "animalIdCounter (poseEffect inp s) = animalIdCounter s"
  using poseEffect_cases [of inp s] by auto

lemma poseEffect_within_cooldown:
  assumes "now inp - lastFireTime s < FIRE_COOLDOWN"
  shows "thrownSpears (poseEffect inp s) = thrownSpears s"
    and "lastFireTime (poseEffect inp s) = lastFireTime s"
    and "spearIdCounter (poseEffect inp s) = spearIdCounter s"
    and "timers (poseEffect inp s) = timers s"
  using poseEffect_cases [of inp s] assms by auto

lemma poseEffect_shape:
  obtains "poseEffect inp s = s"
  | aim st where "poseEffect inp s = s\<lparr>headPosition := Some aim, spearState := st\<rparr>"
  | aim sp where "poseEffect inp s =
           s\<lparr>headPosition := Some aim, spearIdCounter := Suc (spearIdCounter s),
              thrownSpears := thrownSpears s @ [sp], spearState := Throwing,
              lastFireTime := now inp, timers := timers s @ [(500, BackToGripped)]\<rparr>"
      and "dataId sp = spearIdCounter s"
  using poseEffect_cases [of inp s]
proof (elim disjE)
  assume "poseEffect inp s = s"
  then show ?thesis by (rule that(1))
next
  assume "\<exists>aim st. poseEffect inp s = s\<lparr>headPosition := Some aim, spearState := st\<rparr>
         \<and> (st = spearState s \<or> spearState s = Idle \<and> st = Gripped
               \<or> spearState s = Gripped \<and> st = Idle \<and> \<not> detectHandRaised (poseLandmarks inp))
         \<and> (spearState s = Gripped \<and> detectHandRaised (poseLandmarks inp)
                \<and> headPosition s \<noteq> None \<longrightarrow> now inp - lastFireTime s < FIRE_COOLDOWN)"
  then obtain aim st where "poseEffect inp s = s\<lparr>headPosition := Some aim, spearState := st\<rparr>"
    by (elim exE conjE)
  then show ?thesis by (rule that(2))
next
  assume "\<exists>aim aim' sp. poseEffect inp s =
           s\<lparr>headPosition := Some aim, spearIdCounter := Suc (spearIdCounter s),
              thrownSpears := thrownSpears s @ [sp], spearState := Throwing,
              lastFireTime := now inp, timers := timers s @ [(500, BackToGripped)]\<rparr>
         \<and> sp = \<lparr>dataId = spearIdCounter s, dataPosition = aim', dataVelocity = throwVelocity,
                  dataTimestamp = now inp, dataIsActive = True, dataHasHitAnimal = False\<rparr>
         \<and> headPosition s = Some aim'
         \<and> spearState s = Gripped \<and> detectHandRaised (poseLandmarks inp)
         \<and> isReady inp \<and> \<not> isPaused s
         \<and> now inp - lastFireTime s \<ge> FIRE_COOLDOWN"
  then obtain aim aim' sp where a: "poseEffect inp s =
           s\<lparr>headPosition := Some aim, spearIdCounter := Suc (spearIdCounter s),
              thrownSpears := thrownSpears s @ [sp], spearState := Throwing,
              lastFireTime := now inp, timers := timers s @ [(500, BackToGripped)]\<rparr>"
     and b: "sp = \<lparr>dataId = spearIdCounter s, dataPosition = aim', dataVelocity = throwVelocity,
                  dataTimestamp = now inp, dataIsActive = True, dataHasHitAnimal = False\<rparr>"
    by (elim exE conjE)
  from b have "dataId sp = spearIdCounter s" by simp
  with a show ?thesis by (rule that(3))
qed

lemma poseEffect_spears: "spearsStep s (poseEffect inp s)"
proof (cases inp s rule: poseEffect_shape)
  case 1
  then show ?thesis by (simp add: spearsStep_same)
next
  case (2 aim st)
  then show ?thesis by (simp add: spearsStep_same)
next
  case (3 aim sp)
  then show ?thesis by (simp add: spearsStep_def)
qed

lemma poseEffect_ignored:
  assumes "spearState s = Gripped" and "detectHandRaised (poseLandmarks inp)"
    and "now inp - lastFireTime s < FIRE_COOLDOWN"
  shows "poseEffect inp s = s\<lparr>headPosition := headPosition (poseEffect inp s)\<rparr>"
  using poseEffect_cases [of inp s] assms by auto

lemma handleAnimalReachPlayer_animals:
  "animalsStep s (handleAnimalReachPlayer animalsC pausedC dmg aid s)"
  by (rule animalsStep_filter [where P = "\<lambda>animal. animalId animal \<noteq> aid"])
     (simp_all add: handleAnimalReachPlayer_def Let_def split: option.splits)

lemma handleAnimalReachPlayer_other:
  "thrownSpears (handleAnimalReachPlayer animalsC pausedC dmg aid s) = thrownSpears s"
  "spearIdCounter (handleAnimalReachPlayer animalsC pausedC dmg aid s) = spearIdCounter s"
  "lastFireTime (handleAnimalReachPlayer animalsC pausedC dmg aid s) = lastFireTime s"
  by (simp_all add: handleAnimalReachPlayer_def Let_def split: option.splits)

lemma messages_other:
  "animals (handleHitMessage m s) = animals s"
  "animalIdCounter (handleHitMessage m s) = animalIdCounter s"
  "thrownSpears (handleHitMessage m s) = thrownSpears s"
  "spearIdCounter (handleHitMessage m s) = spearIdCounter s"
  "lastFireTime (handleHitMessage m s) = lastFireTime s"
  "animals (handleSpearMiss i m s) = animals s"
  "animalIdCounter (handleSpearMiss i m s) = animalIdCounter s"
  "thrownSpears (handleSpearMiss i m s) = thrownSpears s"
  "spearIdCounter (handleSpearMiss i m s) = spearIdCounter s"
  "lastFireTime (handleSpearMiss i m s) = lastFireTime s"
  by (simp_all add: handleHitMessage_def handleSpearMiss_def Let_def)

lemma pauseEffect_other:
  "animals (pauseEffect s) = animals s"
  "animalIdCounter (pauseEffect s) = animalIdCounter s"
  "thrownSpears (pauseEffect s) = thrownSpears s"
  "spearIdCounter (pauseEffect s) = spearIdCounter s"
  "lastFireTime (pauseEffect s) = lastFireTime s"
  by (simp_all add: pauseEffect_def Let_def)

lemma step_animals: "a \<noteq> Restart \<Longrightarrow> animalsStep s (step a s)"
  by (cases a)
     (simp_all add: animalsStep_same poseEffect_other handleAnimalReachPlayer_animals
        handleAnimalHit_other messages_other pauseEffect_other handleTogglePause_def
        handleCameraRotation_def runCallback_animals fireTimer_animals)

lemma step_spears: "a \<noteq> Restart \<Longrightarrow> spearsStep s (step a s)"
  by (cases a)
     (simp_all add: spearsStep_same poseEffect_spears handleAnimalReachPlayer_other
        handleAnimalHit_spears messages_other pauseEffect_other handleTogglePause_def
        handleCameraRotation_def runCallback_spears fireTimer_spears)

lemma step_lastFireTime:
  "\<forall>inp. a \<noteq> PoseUpdate inp \<Longrightarrow> lastFireTime (step a s) = lastFireTime s"
  by (cases a)
     (simp_all add: handleAnimalReachPlayer_other handleAnimalHit_other messages_other
        pauseEffect_other handleTogglePause_def handleRestart_def handleCameraRotation_def
        runCallback_lastFireTime fireTimer_lastFireTime)

lemma step_Restart:
  "animals (step Restart s) = []" "thrownSpears (step Restart s) = []"
  "animalIdCounter (step Restart s) = 0" "spearIdCounter (step Restart s) = 0"
  by (simp_all add: handleRestart_def pauseEffect_other)

lemma animalsStep_keeps:
  assumes "animalsStep s s'"
    and "distinct (map animalId (animals s))"
    and "list_all (\<lambda>a. animalId a < animalIdCounter s) (animals s)"
  shows "distinct (map animalId (animals s'))
       \<and> list_all (\<lambda>a. animalId a < animalIdCounter s') (animals s')"
  using assms unfolding animalsStep_def
  by (fastforce simp add: distinct_map_filter list_all_iff less_Suc_eq)

lemma spearsStep_keeps:
  assumes "spearsStep s s'"
    and "distinct (map dataId (thrownSpears s))"
    and "list_all (\<lambda>p. dataId p < spearIdCounter s) (thrownSpears s)"
  shows "distinct (map dataId (thrownSpears s'))
       \<and> list_all (\<lambda>p. dataId p < spearIdCounter s') (thrownSpears s')"
  using assms unfolding spearsStep_def
  by (fastforce simp add: distinct_map_filter list_all_iff less_Suc_eq)

lemma idsOK_step: "idsOK s \<Longrightarrow> idsOK (step a s)"
proof (cases "a = Restart")
  case True
  then show ?thesis by (simp only: idsOK_def step_Restart) simp
next
  case False
  assume ok: "idsOK s"
  from animalsStep_keeps [OF step_animals [OF False, of s]] ok
  have 1: "distinct (map animalId (animals (step a s)))
       \<and> list_all (\<lambda>x. animalId x < animalIdCounter (step a s)) (animals (step a s))"
    by (simp add: idsOK_def)
  from spearsStep_keeps [OF step_spears [OF False, of s]] ok
  have 2: "distinct (map dataId (thrownSpears (step a s)))
       \<and> list_all (\<lambda>p. dataId p < spearIdCounter (step a s)) (thrownSpears (step a s))"
    by (simp add: idsOK_def)
  from 1 2 show ?thesis by (simp add: idsOK_def)
qed

lemma idsOK_run: "idsOK s \<Longrightarrow> idsOK (run as s)"
  by (induction as arbitrary: s) (simp_all add: idsOK_step)

lemma idsOK_initial: "idsOK initialApp"
  by (simp add: idsOK_def initialApp_def)

lemma newAnimals_step:
  assumes "idsOK s" and "a \<noteq> Restart"
  shows "animalIdCounter s \<le> animalIdCounter (step a s)
       \<and> sorted_wrt (<) (map animalId (newAnimals a s))
       \<and> list_all (\<lambda>x. animalIdCounter s \<le> animalId x \<and> animalId x < animalIdCounter (step a s))
            (newAnimals a s)"
  using step_animals [OF assms(2), of s] unfolding animalsStep_def
proof (elim disjE exE conjE)
  fix P
  assume "animals (step a s) = filter P (animals s)"
    and "animalIdCounter (step a s) = animalIdCounter s"
  then show ?thesis by (simp add: newAnimals_def)
next
  fix x
  assume x: "animals (step a s) = animals s @ [x]" "animalId x = animalIdCounter s"
    "animalIdCounter (step a s) = Suc (animalIdCounter s)"
  have "x \<notin> set (animals s)"
    using assms(1) x(2) by (fastforce simp add: idsOK_def list_all_iff)
  then have "newAnimals a s = [x]" by (simp add: newAnimals_def x(1))
  then show ?thesis by (simp add: x)
qed

lemma newSpears_step:
  assumes "idsOK s" and "a \<noteq> Restart"
  shows "spearIdCounter s \<le> spearIdCounter (step a s)
       \<and> sorted_wrt (<) (map dataId (newSpears a s))
       \<and> list_all (\<lambda>x. spearIdCounter s \<le> dataId x \<and> dataId x < spearIdCounter (step a s))
            (newSpears a s)"
  using step_spears [OF assms(2), of s] unfolding spearsStep_def
proof (elim disjE exE conjE)
  fix P
  assume "thrownSpears (step a s) = filter P (thrownSpears s)"
    and "spearIdCounter (step a s) = spearIdCounter s"
  then show ?thesis by (simp add: newSpears_def)
next
  fix x
  assume x: "thrownSpears (step a s) = thrownSpears s @ [x]" "dataId x = spearIdCounter s"
    "spearIdCounter (step a s) = Suc (spearIdCounter s)"
  have "x \<notin> set (thrownSpears s)"
    using assms(1) x(2) by (fastforce simp add: idsOK_def list_all_iff)
  then have "newSpears a s = [x]" by (simp add: newSpears_def x(1))
  then show ?thesis by (simp add: x)
qed

lemma spawned_increasing:
  "idsOK s \<Longrightarrow> Restart \<notin> set as \<Longrightarrow>
   animalIdCounter s \<le> animalIdCounter (run as s)
   \<and> sorted_wrt (<) (map animalId (spawned as s))
   \<and> list_all (\<lambda>x. animalIdCounter s \<le> animalId x \<and> animalId x < animalIdCounter (run as s))
        (spawned as s)"
proof (induction as arbitrary: s)
  case Nil
  then show ?case by simp
next
  case (Cons a as)
  from Cons.prems have ne: "a \<noteq> Restart" and rest: "Restart \<notin> set as" by auto
  note st = newAnimals_step [OF Cons.prems(1) ne]
  note ih = Cons.IH [OF idsOK_step [OF Cons.prems(1), of a] rest]
  have le: "animalIdCounter s \<le> animalIdCounter (run as (step a s))" using st ih by simp
  have cross: "\<forall>x \<in> set (newAnimals a s). \<forall>y \<in> set (spawned as (step a s)). animalId x < animalId y"
    using st ih by (fastforce simp add: list_all_iff)
  have bounds: "list_all (\<lambda>x. animalIdCounter s \<le> animalId x
                  \<and> animalId x < animalIdCounter (run as (step a s)))
                (newAnimals a s @ spawned as (step a s))"
    using st ih by (fastforce simp add: list_all_iff)
  show ?case
    using le cross bounds st ih by (simp add: sorted_wrt_append)
qed

lemma fired_increasing:
  "idsOK s \<Longrightarrow> Restart \<notin> set as \<Longrightarrow>
   spearIdCounter s \<le> spearIdCounter (run as s)
   \<and> sorted_wrt (<) (map dataId (fired as s))
   \<and> list_all (\<lambda>x. spearIdCounter s \<le> dataId x \<and> dataId x < spearIdCounter (run as s))
        (fired as s)"
proof (induction as arbitrary: s)
  case Nil
  then show ?case by simp
next
  case (Cons a as)
  from Cons.prems have ne: "a \<noteq> Restart" and rest: "Restart \<notin> set as" by auto
  note st = newSpears_step [OF Cons.prems(1) ne]
  note ih = Cons.IH [OF idsOK_step [OF Cons.prems(1), of a] rest]
  have le: "spearIdCounter s \<le> spearIdCounter (run as (step a s))" using st ih by simp
  have cross: "\<forall>x \<in> set (newSpears a s). \<forall>y \<in> set (fired as (step a s)). dataId x < dataId y"
    using st ih by (fastforce simp add: list_all_iff)
  have bounds: "list_all (\<lambda>x. spearIdCounter s \<le> dataId x
                  \<and> dataId x < spearIdCounter (run as (step a s)))
                (newSpears a s @ fired as (step a s))"
    using st ih by (fastforce simp add: list_all_iff)
  show ?case
    using le cross bounds st ih by (simp add: sorted_wrt_append)
qed

text \<open>
  C10. The invariant \<open>idsOK\<close> (the ids in each array are pairwise distinct and below the
  array's counter) holds in the first state and after a restart from any state, and every
  run keeps it, so at every moment the animals have pairwise distinct ids and so have the
  spears. In a run without restart the ids of the animals spawned, in the order of
  spawning, increase strictly and start no lower than the counter's value at the start of
  the run, which is above every id assigned before; the same holds for the spears fired.
\<close>

theorem ids_strictly_increasing_and_distinct:
  assumes "idsOK s"
  shows "idsOK (run as s)
       \<and> distinct (map animalId (animals (run as s)))
       \<and> distinct (map dataId (thrownSpears (run as s)))
       \<and> (Restart \<notin> set as \<longrightarrow>
            sorted_wrt (<) (map animalId (spawned as s))
          \<and> list_all (\<lambda>x. animalIdCounter s \<le> animalId x) (spawned as s)
          \<and> sorted_wrt (<) (map dataId (fired as s))
          \<and> list_all (\<lambda>p. spearIdCounter s \<le> dataId p) (fired as s))
       \<and> idsOK initialApp \<and> idsOK (step Restart s')"
proof -
  have ok: "idsOK (run as s)" by (rule idsOK_run [OF assms])
  have r: "idsOK (step Restart s')" by (simp only: idsOK_def step_Restart) simp
  have inc: "Restart \<notin> set as \<longrightarrow>
            sorted_wrt (<) (map animalId (spawned as s))
          \<and> list_all (\<lambda>x. animalIdCounter s \<le> animalId x) (spawned as s)
          \<and> sorted_wrt (<) (map dataId (fired as s))
          \<and> list_all (\<lambda>p. spearIdCounter s \<le> dataId p) (fired as s)"
    using spawned_increasing [OF assms, of as] fired_increasing [OF assms, of as]
    by (simp add: list_all_iff)
  from ok r inc idsOK_initial show ?thesis by (simp add: idsOK_def)
qed

theorem ids_strictly_increasing_and_distinct_witness:
  "idsOK (run [FireTimer 0 drawn, PoseUpdate (seenAt 5000), PoseUpdate (raisedAt 6000),
              FireTimer 0 drawn] initialApp)
   \<and> sorted_wrt (<) (map animalId (spawned [FireTimer 0 drawn, PoseUpdate (seenAt 5000),
        PoseUpdate (raisedAt 6000), FireTimer 0 drawn] initialApp))
   \<and> sorted_wrt (<) (map dataId (fired [FireTimer 0 drawn, PoseUpdate (seenAt 5000),
        PoseUpdate (raisedAt 6000), FireTimer 0 drawn] initialApp))"
proof -
  have ok: "idsOK initialApp" by (simp add: idsOK_def initialApp_def)
  from ids_strictly_increasing_and_distinct [OF ok,
      of "[FireTimer 0 drawn, PoseUpdate (seenAt 5000), PoseUpdate (raisedAt 6000),
           FireTimer 0 drawn]"]
  show ?thesis by simp
qed

section \<open>Session: restart\<close>

lemma head_standing: "getHeadPosition (Some standing) = Some (0.5, 0.5, 0)"
  by (simp add: getHeadPosition_def standing_def)

lemma head_handUp: "getHeadPosition (Some handUp) = Some (0.5, 0.5, 0)"
  by (simp add: getHeadPosition_def standing_def handUp_def)

lemma raised_standing: "\<not> detectHandRaised (Some standing)"
  by (simp add: detectHandRaised_def standing_def Let_def)

lemma raised_handUp: "detectHandRaised (Some handUp)"
  by (simp add: detectHandRaised_def standing_def handUp_def Let_def)

lemma rot0: "rotateCoordinates a b 0 = (a, b)"
  by (simp add: rotateCoordinates_def Let_def)

lemma aim0: "aimPosition 0 (hx, hy, hz) = ((0.5 - hx) * 25, (1 - hy) * 2.5 - 4, 5 + hz * (- 3))"
  by (simp add: aimPosition_def rot0)

lemma first_grip: "poseEffect (seenAt 5000) initialApp =
   initialApp\<lparr>headPosition := Some (0, - 2.75, 5), spearState := Gripped\<rparr>"
  unfolding poseEffect_def seenAt_def
  by (simp add: head_standing raised_standing aim0 Let_def initialApp_def)


lemma first_throw: "poseEffect (raisedAt 6000) (poseEffect (seenAt 5000) initialApp) =
   initialApp\<lparr>headPosition := Some (0, - 2.75, 5), spearState := Throwing, lastFireTime := 6000,
     spearIdCounter := 1,
     thrownSpears := [\<lparr>dataId = 0, dataPosition = (0, - 2.75, 5), dataVelocity = (0, 2.3, - 39),
        dataTimestamp = 6000, dataIsActive = True, dataHasHitAnimal = False\<rparr>],
     timers := [(1000, InitialSpawn), (500, BackToGripped)]\<rparr>"
  unfolding first_grip unfolding poseEffect_def raisedAt_def
  by (simp add: head_handUp raised_handUp initialApp_def aim0 Let_def
      FIRE_COOLDOWN_def throwVelocity_def)

text \<open>
  C9 (as amended). Restart sets the score to 0, empties the animals and the thrown spears,
  returns the spear state to Idle, resets both id counters to 0, clears the hit and the
  flash message and ends a pause. It leaves \<open>lastFireTime\<close> as it was.
\<close>

theorem restart_resets:
  "score (step Restart s) = 0 \<and> animals (step Restart s) = [] \<and> thrownSpears (step Restart s) = []
   \<and> spearState (step Restart s) = Idle \<and> spearIdCounter (step Restart s) = 0
   \<and> animalIdCounter (step Restart s) = 0 \<and> hitMessage (step Restart s) = []
   \<and> flashMessage (step Restart s) = [] \<and> isPaused (step Restart s) = False
   \<and> lastFireTime (step Restart s) = lastFireTime s"
  by (simp add: handleRestart_def pauseEffect_def Let_def)

theorem restart_resets_witness:
  "score (step Restart (handleAnimalHit 50 3 initialApp)) = 0
   \<and> score (handleAnimalHit 50 3 initialApp) = 50"
  using restart_resets [of "handleAnimalHit 50 3 initialApp"]
  by (simp add: handleAnimalHit_def initialApp_def Let_def)

text \<open>
  C9 as stated fails: after a throw at time 6000 a restart leaves \<open>lastFireTime\<close> at 6000,
  not at its initial value 0.
\<close>

theorem restart_keeps_lastFireTime:
  "lastFireTime (run [PoseUpdate (seenAt 5000), PoseUpdate (raisedAt 6000), Restart] initialApp) = 6000
   \<and> lastFireTime initialApp = 0"
  by (simp add: first_throw handleRestart_def pauseEffect_def) (simp add: initialApp_def)

section \<open>Session: fire control\<close>

lemma filter_same: "\<exists>P. xs = filter P xs"
  by (rule exI [of _ "\<lambda>_. True"]) simp

lemma handleAnimalHit_removes:
  "\<exists>P. thrownSpears (handleAnimalHit sc sid s) = filter P (thrownSpears s)"
  by (cases "sid = 0") (auto simp add: handleAnimalHit_def Let_def filter_same)

lemma runCallback_removes:
  "\<exists>P. thrownSpears (runCallback cb inp s) = filter P (thrownSpears s)"
proof (cases cb)
  case (DeathAnimationDone v p i)
  then show ?thesis by (cases v) (simp_all add: spawnNewAnimal_other filter_same)
next
  case (RemoveSpear i)
  then show ?thesis by auto
qed (simp_all add: spawnNewAnimal_other filter_same handleAnimalHit_removes)

lemma fireTimer_removes:
  "\<exists>P. thrownSpears (fireTimer k inp s) = filter P (thrownSpears s)"
proof (cases "k < length (timers s)")
  case True
  from runCallback_removes [of "snd (timers s ! k)" inp
      "s\<lparr>timers := take k (timers s) @ drop (Suc k) (timers s)\<rparr>"]
  show ?thesis using True by (simp add: fireTimer_def)
next
  case False
  then show ?thesis by (simp add: fireTimer_def filter_same)
qed

lemma step_removes:
  assumes "\<forall>inp. a \<noteq> PoseUpdate inp"
  shows "\<exists>P. thrownSpears (step a s) = filter P (thrownSpears s)"
proof (cases a)
  case (PoseUpdate inp)
  with assms show ?thesis by simp
next
  case Restart
  have "thrownSpears (step Restart s) = filter (\<lambda>_. False) (thrownSpears s)"
    by (simp add: step_Restart del: step.simps)
  with Restart show ?thesis by blast
qed (simp_all add: handleAnimalReachPlayer_other handleAnimalHit_removes messages_other
       pauseEffect_other handleTogglePause_def handleCameraRotation_def runCallback_removes
       fireTimer_removes filter_same)

lemma newSpears_removes:
  "\<exists>P. thrownSpears (step a s) = filter P (thrownSpears s) \<Longrightarrow> newSpears a s = []"
  by (auto simp add: newSpears_def filter_empty_conv)

lemma quiet_within_cooldown:
  "lastFireTime s = t \<Longrightarrow>
   \<forall>a \<in> set as. \<forall>inp. a = PoseUpdate inp \<longrightarrow> now inp - t < FIRE_COOLDOWN \<Longrightarrow>
   fired as s = [] \<and> lastFireTime (run as s) = t"
proof (induction as arbitrary: s)
  case Nil
  then show ?case by simp
next
  case (Cons a as)
  have "newSpears a s = [] \<and> lastFireTime (step a s) = t"
  proof (cases "\<exists>inp. a = PoseUpdate inp")
    case True
    then obtain inp where a: "a = PoseUpdate inp" by blast
    with Cons.prems have "now inp - lastFireTime s < FIRE_COOLDOWN" by simp
    from poseEffect_within_cooldown(1,2) [OF this] a Cons.prems(1)
    show ?thesis by (simp add: newSpears_def)
  next
    case False
    then have np: "\<forall>inp. a \<noteq> PoseUpdate inp" by blast
    from newSpears_removes [OF step_removes [OF np]] step_lastFireTime [OF np] Cons.prems(1)
    show ?thesis by simp
  qed
  moreover from Cons.prems(2)
  have "\<forall>a \<in> set as. \<forall>inp. a = PoseUpdate inp \<longrightarrow> now inp - t < FIRE_COOLDOWN" by simp
  ultimately show ?case using Cons.IH [of "step a s"] by simp
qed

text \<open>
  C3. The pose effect leaves the thrown spears alone or appends exactly one, and it
  appends one only when the spear state is Gripped, a hand is raised and at least 1000 ms
  have passed since \<open>lastFireTime\<close>. After an attempt that fired, whatever happens next
  (timers, hits, pause, restart, further pose updates), as long as every later pose update
  comes less than 1000 ms after that attempt, the whole run has produced exactly one spear.
  An attempt inside the cooldown (Gripped, hand raised) changes nothing but the aiming
  position: no spear, no timer, no change of state.
\<close>

theorem fire_needs_grip_signal_and_cooldown:
  "(thrownSpears (poseEffect inp s) = thrownSpears s
      \<or> (\<exists>sp. thrownSpears (poseEffect inp s) = thrownSpears s @ [sp]
            \<and> spearState s = Gripped \<and> detectHandRaised (poseLandmarks inp)
            \<and> now inp - lastFireTime s \<ge> 1000))
   \<and> (idsOK s \<and> thrownSpears (poseEffect first s) \<noteq> thrownSpears s
        \<and> (\<forall>a \<in> set as. \<forall>later. a = PoseUpdate later \<longrightarrow> now later - now first < 1000)
       \<longrightarrow> length (fired (PoseUpdate first # as) s) = 1
           \<and> lastFireTime (run (PoseUpdate first # as) s) = now first)
   \<and> (spearState s = Gripped \<and> detectHandRaised (poseLandmarks inp)
        \<and> now inp - lastFireTime s < 1000
       \<longrightarrow> poseEffect inp s = s\<lparr>headPosition := headPosition (poseEffect inp s)\<rparr>)"
proof -
  have only: "thrownSpears (poseEffect inp s) = thrownSpears s
      \<or> (\<exists>sp. thrownSpears (poseEffect inp s) = thrownSpears s @ [sp]
            \<and> spearState s = Gripped \<and> detectHandRaised (poseLandmarks inp)
            \<and> now inp - lastFireTime s \<ge> 1000)"
    using poseEffect_cases [of inp s] by (auto simp add: FIRE_COOLDOWN_def)
  have two: "length (fired (PoseUpdate first # as) s) = 1
           \<and> lastFireTime (run (PoseUpdate first # as) s) = now first"
    if ok: "idsOK s" and f: "thrownSpears (poseEffect first s) \<noteq> thrownSpears s"
      and w: "\<forall>a \<in> set as. \<forall>later. a = PoseUpdate later \<longrightarrow> now later - now first < 1000"
  proof -
    from poseEffect_cases [of first s] f
    obtain sp where sp: "thrownSpears (poseEffect first s) = thrownSpears s @ [sp]"
      "dataId sp = spearIdCounter s" "lastFireTime (poseEffect first s) = now first"
      by auto
    have "sp \<notin> set (thrownSpears s)"
      using ok sp(2) by (fastforce simp add: idsOK_def list_all_iff)
    then have one: "newSpears (PoseUpdate first) s = [sp]"
      by (simp add: newSpears_def sp(1))
    from quiet_within_cooldown [OF sp(3), of as] w
    have "fired as (poseEffect first s) = [] \<and> lastFireTime (run as (poseEffect first s)) = now first"
      by (simp add: FIRE_COOLDOWN_def)
    with one show ?thesis by simp
  qed
  have ign: "poseEffect inp s = s\<lparr>headPosition := headPosition (poseEffect inp s)\<rparr>"
    if "spearState s = Gripped" "detectHandRaised (poseLandmarks inp)"
       "now inp - lastFireTime s < 1000"
    using poseEffect_ignored [of s inp] that by (simp add: FIRE_COOLDOWN_def)
  from only two ign show ?thesis by blast
qed

theorem fire_needs_grip_signal_and_cooldown_witness:
  "thrownSpears (poseEffect (raisedAt 6000) (poseEffect (seenAt 5000) initialApp))
     \<noteq> thrownSpears (poseEffect (seenAt 5000) initialApp)
   \<and> length (fired [PoseUpdate (raisedAt 6000), FireTimer 1 drawn, PoseUpdate (raisedAt 6400)]
               (poseEffect (seenAt 5000) initialApp)) = 1
   \<and> spearState (run [PoseUpdate (seenAt 5000), PoseUpdate (raisedAt 6000), FireTimer 1 drawn]
                    initialApp) = Gripped
   \<and> poseEffect (raisedAt 6400)
         (run [PoseUpdate (seenAt 5000), PoseUpdate (raisedAt 6000), FireTimer 1 drawn] initialApp)
       = (run [PoseUpdate (seenAt 5000), PoseUpdate (raisedAt 6000), FireTimer 1 drawn] initialApp)
           \<lparr>headPosition := Some (0, - 2.75, 5)\<rparr>"
proof -
  let ?g = "poseEffect (seenAt 5000) initialApp"
  let ?r = "run [PoseUpdate (seenAt 5000), PoseUpdate (raisedAt 6000), FireTimer 1 drawn] initialApp"
  have ok: "idsOK ?g" unfolding first_grip by (simp add: idsOK_def initialApp_def)
  have f: "thrownSpears (poseEffect (raisedAt 6000) ?g) \<noteq> thrownSpears ?g"
    unfolding first_throw unfolding first_grip by (simp add: initialApp_def)
  have w: "\<forall>a \<in> set [FireTimer 1 drawn, PoseUpdate (raisedAt 6400)].
            \<forall>later. a = PoseUpdate later \<longrightarrow> now later - now (raisedAt 6000) < 1000"
    by (simp add: raisedAt_def)
  have r: "?r = initialApp\<lparr>headPosition := Some (0, - 2.75, 5), spearState := Gripped,
     lastFireTime := 6000, spearIdCounter := 1,
     thrownSpears := [\<lparr>dataId = 0, dataPosition = (0, - 2.75, 5), dataVelocity = (0, 2.3, - 39),
        dataTimestamp = 6000, dataIsActive = True, dataHasHitAnimal = False\<rparr>],
     timers := [(1000, InitialSpawn)]\<rparr>"
    by (simp add: first_throw fireTimer_def)
  have g: "spearState ?r = Gripped" and h: "detectHandRaised (poseLandmarks (raisedAt 6400))"
    and c: "now (raisedAt 6400) - lastFireTime ?r < 1000"
    unfolding r by (simp_all add: raisedAt_def raised_handUp initialApp_def)
  note two = fire_needs_grip_signal_and_cooldown
    [where s = "?g" and first = "raisedAt 6000"
       and as = "[FireTimer 1 drawn, PoseUpdate (raisedAt 6400)]", THEN conjunct2, THEN conjunct1,
     rule_format, OF conjI [OF ok conjI [OF f w]]]
  note ign = fire_needs_grip_signal_and_cooldown
    [where s = "?r" and inp = "raisedAt 6400", THEN conjunct2, THEN conjunct2, rule_format,
     OF conjI [OF g conjI [OF h c]]]
  have aim: "headPosition (poseEffect (raisedAt 6400) ?r) = Some (0, - 2.75, 5)"
    unfolding r unfolding poseEffect_def raisedAt_def
    by (simp add: head_handUp raised_handUp initialApp_def aim0 Let_def FIRE_COOLDOWN_def)
  from two ign aim f g show ?thesis by simp
qed

section \<open>Session: respawn\<close>

lemma isCallSpawn_not_initial: "isCallSpawn t \<Longrightarrow> snd t \<noteq> InitialSpawn"
  by (cases t rule: isCallSpawn.cases) simp_all

lemma pendingSpawns_pauseEffect: "\<exists>ys. pendingSpawns (pauseEffect s) = pendingSpawns s @ ys"
proof -
  have "filter isCallSpawn (filter (\<lambda>t. snd t \<noteq> InitialSpawn) ts) = filter isCallSpawn ts" for ts
    by (induction ts) (auto dest: isCallSpawn_not_initial)
  then show ?thesis by (simp add: pauseEffect_def pendingSpawns_def Let_def)
qed

lemma pendingSpawns_spawnNewAnimal:
  "\<exists>ys. pendingSpawns (spawnNewAnimal pausedC dead inp s) = pendingSpawns s @ ys"
  by (simp add: spawnNewAnimal_def pendingSpawns_def split: option.splits)

lemma pendingSpawns_runCallback:
  "\<exists>ys. pendingSpawns (runCallback cb inp s) = pendingSpawns s @ ys"
proof (cases cb)
  case (DeathAnimationDone v p i)
  then show ?thesis by (cases v) (simp_all add: pendingSpawns_spawnNewAnimal)
next
  case (CallSpawn p)
  then show ?thesis by (simp add: pendingSpawns_spawnNewAnimal)
next
  case InitialSpawn
  then show ?thesis by (simp add: pendingSpawns_spawnNewAnimal)
qed (simp_all add: pendingSpawns_def handleAnimalHit_def Let_def)

lemma pendingSpawns_poseEffect:
  "\<exists>ys. pendingSpawns (poseEffect inp s) = pendingSpawns s @ ys"
proof (cases inp s rule: poseEffect_shape)
  case 1
  then show ?thesis by simp
next
  case (2 aim st)
  then show ?thesis by (simp add: pendingSpawns_def)
next
  case (3 aim sp)
  then show ?thesis by (simp add: pendingSpawns_def)
qed

lemma pendingSpawns_step:
  assumes "\<forall>k inp. a \<noteq> FireTimer k inp"
  shows "\<exists>ys. pendingSpawns (step a s) = pendingSpawns s @ ys"
proof (cases a)
  case (FireTimer k inp)
  with assms show ?thesis by simp
next
  case TogglePause
  have "pendingSpawns (handleTogglePause s) = pendingSpawns s"
    by (simp add: handleTogglePause_def pendingSpawns_def)
  with pendingSpawns_pauseEffect [of "handleTogglePause s"] TogglePause show ?thesis by simp
next
  case Restart
  have "pendingSpawns (handleRestart s) = pendingSpawns s"
    by (simp add: handleRestart_def pendingSpawns_def)
  with pendingSpawns_pauseEffect [of "handleRestart s"] Restart show ?thesis by simp
next
  case (PoseUpdate inp)
  then show ?thesis by (simp add: pendingSpawns_poseEffect)
next
  case (ComponentTimer cb inp)
  then show ?thesis by (simp add: pendingSpawns_runCallback)
qed (simp_all add: pendingSpawns_def
       handleAnimalReachPlayer_def handleAnimalHit_def handleHitMessage_def handleSpearMiss_def
       handleCameraRotation_def Let_def split: option.splits)

lemma spawn_appends_one:
  "\<exists>x. animals (spawnNewAnimal False None inp s) = animals s @ [x]
        \<and> animalId x = animalIdCounter s
        \<and> timers (spawnNewAnimal False None inp s) = timers s"
proof -
  obtain ty where "selectType (randomType inp * totalWeight ANIMAL_TYPES) ANIMAL_TYPES = Some ty"
    using selectType_ANIMAL_TYPES by blast
  then show ?thesis by (simp add: spawnNewAnimal_def)
qed

lemma collide_death_flag:
  "(ms, DeathAnimationDone v' p i) \<in> set (outTimers (collide v pick paused ad cl np acc sp)) \<Longrightarrow>
   (ms, DeathAnimationDone v' p i) \<in> set (outTimers acc) \<or> p = paused"
  by (auto simp add: collide_def Let_def split: if_splits)

lemma foldl_collide_death_flag:
  "(ms, DeathAnimationDone v' p i) \<in> set (outTimers (foldl (collide v pick paused ad cl np) acc sps))
   \<Longrightarrow> (ms, DeathAnimationDone v' p i) \<in> set (outTimers acc) \<or> p = paused"
proof (induction sps arbitrary: acc)
  case Nil
  then show ?case by simp
next
  case (Cons sp sps)
  from Cons.IH [of "collide v pick paused ad cl np acc sp"] Cons.prems
  have "(ms, DeathAnimationDone v' p i) \<in> set (outTimers (collide v pick paused ad cl np acc sp))
        \<or> p = paused" by simp
  then show ?case using collide_death_flag by blast
qed

lemma animalFrame_death_flag:
  assumes "(ms, DeathAnimationDone v' p i) \<in> set (outTimers (animalFrame v pick mesh paused delta ad cl sps))"
  shows "\<not> p"
proof (cases "\<not> mesh \<or> \<not> isAlive cl \<or> paused")
  case True
  from animalFrame_idle [OF True] assms show ?thesis by simp
next
  case False
  then have np: "\<not> paused" by simp
  show ?thesis
  proof (cases "snd (snd (movedPosition ad cl delta)) \<ge> 8")
    case True
    with False assms show ?thesis by (simp add: animalFrame_def Let_def)
  next
    case ge: False
    with False assms
    have "(ms, DeathAnimationDone v' p i) \<in> set (outTimers
            (foldl (collide v pick paused ad cl (movedPosition ad cl delta))
               \<lparr>outComp = cl, outSpears = [], outEvents = [], outTimers = []\<rparr> sps))"
      by (simp add: animalFrame_def Let_def)
    from foldl_collide_death_flag [OF this] np show ?thesis by simp
  qed
qed

lemma animalFrame_events_unpaused:
  "outEvents (animalFrame v pick mesh paused delta ad cl sps) \<noteq> [] \<Longrightarrow> \<not> paused"
  using animalFrame_idle [of mesh cl paused v pick delta ad sps] by auto

text \<open>
  What each removal callback does. An arrival removes the animal and adds exactly one
  pending call of \<open>spawnNewAnimal()\<close> (after 1000 ms); a completed death animation of an
  animal with id other than 0 removes it and adds exactly one such call (after 100 ms), and
  for id 0 (where \<open>if (deadAnimalId)\<close> is false) spawns the replacement at once. No step
  other than the firing of a timer takes a pending call away. When the pending call fires it
  leaves the list and exactly one animal is appended, with a fresh id, whatever \<open>isPaused\<close>
  is at that moment: the call reads the \<open>isPaused\<close> of the render in which the animal's
  frame ran, and a frame only emits when that is false.
\<close>

theorem one_respawn_per_removal:
  "(pendingSpawns (handleAnimalReachPlayer animalsC False dmg aid s)
       = pendingSpawns s @ [(1000, CallSpawn False)]
     \<and> animals (handleAnimalReachPlayer animalsC False dmg aid s)
       = filter (\<lambda>animal. animalId animal \<noteq> aid) (animals s))
   \<and> (aid \<noteq> 0 \<longrightarrow>
        pendingSpawns (runCallback (DeathAnimationDone PoseApp False aid) inp s)
          = pendingSpawns s @ [(100, CallSpawn False)]
      \<and> animals (runCallback (DeathAnimationDone PoseApp False aid) inp s)
          = filter (\<lambda>animal. animalId animal \<noteq> aid) (animals s))
   \<and> (\<exists>x. animals (runCallback (DeathAnimationDone PoseApp False 0) inp s) = animals s @ [x]
          \<and> pendingSpawns (runCallback (DeathAnimationDone PoseApp False 0) inp s)
              = pendingSpawns s)
   \<and> ((\<forall>k i. a \<noteq> FireTimer k i) \<longrightarrow> (\<exists>ys. pendingSpawns (step a s) = pendingSpawns s @ ys))
   \<and> (k < length (timers s) \<and> snd (timers s ! k) = CallSpawn False \<longrightarrow>
        (\<exists>x. animals (fireTimer k inp s) = animals s @ [x] \<and> animalId x = animalIdCounter s)
      \<and> timers (fireTimer k inp s) = take k (timers s) @ drop (Suc k) (timers s))
   \<and> ((ms, DeathAnimationDone v' p i') \<in> set (outTimers (animalFrame v pick mesh paused delta ad cl sps))
        \<longrightarrow> \<not> p)
   \<and> (outEvents (animalFrame v pick mesh paused delta ad cl sps) \<noteq> [] \<longrightarrow> \<not> paused)"
proof -
  have A: "pendingSpawns (handleAnimalReachPlayer animalsC False dmg aid s)
       = pendingSpawns s @ [(1000, CallSpawn False)]
     \<and> animals (handleAnimalReachPlayer animalsC False dmg aid s)
       = filter (\<lambda>animal. animalId animal \<noteq> aid) (animals s)"
    by (simp add: handleAnimalReachPlayer_def pendingSpawns_def Let_def split: option.splits)
  have B: "aid \<noteq> 0 \<longrightarrow>
        pendingSpawns (runCallback (DeathAnimationDone PoseApp False aid) inp s)
          = pendingSpawns s @ [(100, CallSpawn False)]
      \<and> animals (runCallback (DeathAnimationDone PoseApp False aid) inp s)
          = filter (\<lambda>animal. animalId animal \<noteq> aid) (animals s)"
    by (simp add: spawnNewAnimal_def pendingSpawns_def)
  have B0: "\<exists>x. animals (runCallback (DeathAnimationDone PoseApp False 0) inp s) = animals s @ [x]
          \<and> pendingSpawns (runCallback (DeathAnimationDone PoseApp False 0) inp s)
              = pendingSpawns s"
  proof -
    have "spawnNewAnimal False (Some 0) inp s = spawnNewAnimal False None inp s"
      by (simp add: spawnNewAnimal_def)
    with spawn_appends_one [of inp s] show ?thesis by (auto simp add: pendingSpawns_def)
  qed
  have C: "(\<forall>k i. a \<noteq> FireTimer k i) \<longrightarrow> (\<exists>ys. pendingSpawns (step a s) = pendingSpawns s @ ys)"
    using pendingSpawns_step by blast
  have D: "k < length (timers s) \<and> snd (timers s ! k) = CallSpawn False \<longrightarrow>
        (\<exists>x. animals (fireTimer k inp s) = animals s @ [x] \<and> animalId x = animalIdCounter s)
      \<and> timers (fireTimer k inp s) = take k (timers s) @ drop (Suc k) (timers s)"
    using spawn_appends_one [of inp "s\<lparr>timers := take k (timers s) @ drop (Suc k) (timers s)\<rparr>"]
    by (auto simp add: fireTimer_def)
  have E: "(ms, DeathAnimationDone v' p i') \<in> set (outTimers (animalFrame v pick mesh paused delta ad cl sps))
        \<longrightarrow> \<not> p"
    using animalFrame_death_flag by blast
  have F: "outEvents (animalFrame v pick mesh paused delta ad cl sps) \<noteq> [] \<longrightarrow> \<not> paused"
    using animalFrame_events_unpaused by blast
  from A B B0 C D E F show ?thesis by blast
qed

theorem one_respawn_per_removal_witness:
  "isPaused (step TogglePause (handleAnimalReachPlayer [] False 50 7 initialApp))
   \<and> pendingSpawns (step TogglePause (handleAnimalReachPlayer [] False 50 7 initialApp))
       = [(1000, CallSpawn False)]
   \<and> (\<exists>x. animals (fireTimer 0 drawn
                (step TogglePause (handleAnimalReachPlayer [] False 50 7 initialApp)))
             = animals (step TogglePause (handleAnimalReachPlayer [] False 50 7 initialApp)) @ [x]
          \<and> animalId x
             = animalIdCounter (step TogglePause (handleAnimalReachPlayer [] False 50 7 initialApp)))
   \<and> timers (fireTimer 0 drawn
                (step TogglePause (handleAnimalReachPlayer [] False 50 7 initialApp))) = []"
proof -
  let ?p = "step TogglePause (handleAnimalReachPlayer [] False 50 7 initialApp)"
  have t: "timers ?p = [(1000, CallSpawn False)]" and p: "isPaused ?p"
    by (simp_all add: handleAnimalReachPlayer_def handleTogglePause_def pauseEffect_def
        initialApp_def Let_def)
  have k: "0 < length (timers ?p) \<and> snd (timers ?p ! 0) = CallSpawn False"
    unfolding t by simp
  note fire = one_respawn_per_removal
    [where s = "?p" and k = 0 and inp = drawn, THEN conjunct2, THEN conjunct2, THEN conjunct2,
     THEN conjunct2, THEN conjunct1, rule_format, OF k]
  have ps: "pendingSpawns ?p = [(1000, CallSpawn False)]"
    unfolding pendingSpawns_def t by simp
  from fire p ps t show ?thesis by simp
qed

lemma drawn_type: "selectType (randomType drawn * totalWeight ANIMAL_TYPES) ANIMAL_TYPES = Some ELEPHANT"
  by (simp add: drawn_def totalWeight_def ANIMAL_TYPES_def ELEPHANT_def CHEETAH_def ANTELOPE_def)

lemma spawn_drawn:
  "spawnNewAnimal False None drawn s =
     s\<lparr>animalIdCounter := animalIdCounter s + 1,
       animals := animals s @ [\<lparr>animalId = animalIdCounter s, animalType = ELEPHANT,
          spawnPosition = (0, - 4, - 25), spawnTime = 9000\<rparr>]\<rparr>"
  by (simp add: spawnNewAnimal_def drawn_type) (simp add: drawn_def)

lemma spawn_dead:
  "d \<noteq> 0 \<Longrightarrow> spawnNewAnimal pausedC (Some d) inp s =
     s\<lparr>animals := filter (\<lambda>animal. animalId animal \<noteq> d) (animals s),
       timers := timers s @ [(100, CallSpawn pausedC)]\<rparr>"
  by (simp add: spawnNewAnimal_def)

text \<open>
  C4. The failing input: the elephant of \<open>hunting\<close> is killed in a tick in which spears 5
  and 6 both reach it. The frame sets two death timers; each completed death animation calls
  \<open>spawnNewAnimal(9)\<close>, which schedules a spawn, so the one removed animal (id 9) is
  replaced by two (ids 10 and 11).
\<close>

theorem double_kill_spawns_twice:
  "map animalId (animals hunting) = [9]
   \<and> map snd (outTimers (animalFrame PoseApp hitText True False 0.1 elephant9 wounded
                            [spear5, spear6]))
       = [CallOnHit 100 5 (Some 9), DeathAnimationDone PoseApp False 9,
          CallOnHit 100 6 (Some 9), DeathAnimationDone PoseApp False 9]
   \<and> map animalId (animals (run afterTheKill hunting)) = [10, 11]
   \<and> timers (run afterTheKill hunting) = []"
  unfolding afterTheKill_def elephant_frame
  by (simp add: hunting_def fireTimer_def spawn_drawn spawn_dead handleAnimalHit_def
      Let_def elephant9_def spear5_def spear6_def)

theorem double_kill_spawns_twice_witness:
  "map animalId (animals (run afterTheKill hunting)) \<noteq> map animalId (animals hunting)"
  using double_kill_spawns_twice by simp

end
